theory Spec2Isabelle
  imports Complex_Main "HOL-Library.Monad_Syntax"
begin

section \<open>Data model\<close>

text \<open>
  The generator works on JavaScript numbers. They are modelled as exact rationals:
  every finite double is a rational, and the arithmetic of the generator (sums,
  differences, halving, division by three) is taken without rounding, underflow or
  overflow. Doubles agree with this on the concrete inputs evaluated below (sizes 1, 2,
  3 and \<open>2^-20\<close>, centres with small integer coordinates), whose values they represent
  exactly, and at level 0 for the sizes from \<open>0.000005\<close> on, where a tetrahedron negates
  the size, an octahedron adds it to 0 and a cube halves it. The statements made for
  every level use no fact about the arithmetic: they speak of the keys of the points,
  whatever their coordinates are.

  The output arrays are lists and the map of the weld is a function. Both are
  unbounded; the capacity of the arrays and of the map of an engine is added on top of
  the generators, in \<open>generateWithin\<close>.
\<close>

datatype FractalType = SierpinskiTetrahedron | MengerSponge | SierpinskiOctahedron

text \<open>\<open>THREE.Vector3\<close>: the fields \<open>x\<close>, \<open>y\<close>, \<open>z\<close> of the source are \<open>vx\<close>, \<open>vy\<close>, \<open>vz\<close>.\<close>

record Vector3 =
  vx :: rat
  vy :: rat
  vz :: rat

record Face =
  v1 :: nat
  v2 :: nat
  v3 :: nat

record GenerationOutput =
  bufferVertices :: "rat list"
  bufferIndices :: "nat list"
  exportVertices :: "Vector3 list"
  exportFaces :: "Face list"

text \<open>
  The five mutable containers that every subdivision call threads through: the four
  output arrays and the \<open>Map<string, number>\<close> of the weld.
\<close>

record GenState = GenerationOutput +
  vertexMap :: "string \<rightharpoonup> nat"

definition newVector3 :: "rat \<Rightarrow> rat \<Rightarrow> rat \<Rightarrow> Vector3" where
  "newVector3 a b c = \<lparr>vx = a, vy = b, vz = c\<rparr>"

definition add :: "Vector3 \<Rightarrow> Vector3 \<Rightarrow> Vector3" where
  "add p q = newVector3 (vx p + vx q) (vy p + vy q) (vz p + vz q)"

definition multiplyScalar :: "Vector3 \<Rightarrow> rat \<Rightarrow> Vector3" where
  "multiplyScalar p s = newVector3 (vx p * s) (vy p * s) (vz p * s)"

section \<open>Number.prototype.toFixed(5)\<close>

definition digitChar :: "nat \<Rightarrow> char" where
  "digitChar d = ''0123456789'' ! d"

function natToString :: "nat \<Rightarrow> string" where
  "natToString n =
     (if n < 10 then [digitChar n] else natToString (n div 10) @ [digitChar (n mod 10)])"
  by pat_completeness auto
termination
  by (relation "measure (\<lambda>n. n)") auto

declare natToString.simps [simp del]

text \<open>
  \<open>toFixed(5)\<close> as ECMAScript defines it for a finite number below \<open>10^21\<close> in
  magnitude: a minus sign when \<open>x < 0\<close>, then the integer \<open>n\<close> nearest to
  \<open>|x| * 10^5\<close> (the larger one on a tie) written in decimal, padded on the left with
  zeros to at least six digits, with the point before the last five digits. The
  exponent notation that ECMAScript switches to from \<open>10^21\<close> on is not modelled.
\<close>

definition toFixed5 :: "rat \<Rightarrow> string" where
  "toFixed5 x =
     (let s = (if x < 0 then ''-'' else '''');
          n = nat \<lfloor>\<bar>x\<bar> * 100000 + 1 / 2\<rfloor>;
          m = natToString n;
          k = length m;
          m' = (if k \<le> 5 then replicate (6 - k) (CHR ''0'') @ m else m);
          k' = length m'
      in s @ take (k' - 5) m' @ ''.'' @ drop (k' - 5) m')"

definition vertexKey :: "Vector3 \<Rightarrow> string" where
  "vertexKey vertex = toFixed5 (vx vertex) @ '','' @ toFixed5 (vy vertex) @ '','' @ toFixed5 (vz vertex)"

section \<open>The vertex weld\<close>

definition addUniqueVertex :: "Vector3 \<Rightarrow> GenState \<Rightarrow> nat \<times> GenState" where
  "addUniqueVertex vertex st =
     (let key = vertexKey vertex in
      case vertexMap st key of
        Some i \<Rightarrow> (i, st)
      | None \<Rightarrow>
          (let newIndex = length (exportVertices st) in
           (newIndex,
            st\<lparr>bufferVertices := bufferVertices st @ [vx vertex, vy vertex, vz vertex],
               exportVertices := exportVertices st @ [vertex],
               vertexMap := (vertexMap st)(key \<mapsto> newIndex)\<rparr>)))"

text \<open>\<open>vertices.map(v => addUniqueVertex(v, ...))\<close>: the welds run left to right.\<close>

fun addUniqueVertices :: "Vector3 list \<Rightarrow> GenState \<Rightarrow> nat list \<times> GenState" where
  "addUniqueVertices [] st = ([], st)"
| "addUniqueVertices (v # vs) st =
     (let (i, st1) = addUniqueVertex v st;
          (js, st2) = addUniqueVertices vs st1
      in (i # js, st2))"

text \<open>
  \<open>allBufferIndices.push(a, b, c); allExportFaces.push({v1: a, v2: b, v3: c})\<close>
\<close>

definition pushFace :: "nat \<Rightarrow> nat \<Rightarrow> nat \<Rightarrow> GenState \<Rightarrow> GenState" where
  "pushFace a b c st =
     st\<lparr>bufferIndices := bufferIndices st @ [a, b, c],
        exportFaces := exportFaces st @ [\<lparr>v1 = a, v2 = b, v3 = c\<rparr>]\<rparr>"

text \<open>
  \<open>facesData.forEach(faceIndices => ...)\<close>: each entry of \<open>facesData\<close> is an array of
  three indices; all of it is pushed to the index buffer and its first three entries
  make the face.
\<close>

fun pushFaces :: "nat list list \<Rightarrow> GenState \<Rightarrow> GenState" where
  "pushFaces [] st = st"
| "pushFaces (faceIndices # rest) st =
     pushFaces rest
       (st\<lparr>bufferIndices := bufferIndices st @ faceIndices,
           exportFaces := exportFaces st @
             [\<lparr>v1 = faceIndices ! 0, v2 = faceIndices ! 1, v3 = faceIndices ! 2\<rparr>]\<rparr>)"

text \<open>Running a loop body over a list, where the body may fail to return.\<close>

fun forEachM :: "('a \<Rightarrow> 's \<Rightarrow> 's option) \<Rightarrow> 'a list \<Rightarrow> 's \<Rightarrow> 's option" where
  "forEachM body [] st = Some st"
| "forEachM body (a # as) st = Option.bind (body a st) (forEachM body as)"

lemma forEachM_mono [partial_function_mono]:
  assumes "\<And>a st. mono_option (\<lambda>f. body f a st)"
  shows "mono_option (\<lambda>f. forEachM (body f) as st)"
proof (induction as arbitrary: st)
  case Nil
  show ?case by (simp add: option.const_mono)
next
  case (Cons a as)
  show ?case
    unfolding forEachM.simps
    by (rule bind_mono [OF assms Cons.IH])
qed

section \<open>Tetrahedron fractal\<close>

definition tetrahedronLeaf ::
  "Vector3 \<Rightarrow> Vector3 \<Rightarrow> Vector3 \<Rightarrow> Vector3 \<Rightarrow> GenState \<Rightarrow> GenState" where
  "tetrahedronLeaf p1 p2 p3 p4 st =
     (let (idx1, st1) = addUniqueVertex p1 st;
          (idx2, st2) = addUniqueVertex p2 st1;
          (idx3, st3) = addUniqueVertex p3 st2;
          (idx4, st4) = addUniqueVertex p4 st3;
          st5 = pushFace idx1 idx3 idx2 st4;
          st6 = pushFace idx1 idx2 idx4 st5;
          st7 = pushFace idx1 idx4 idx3 st6
      in pushFace idx2 idx3 idx4 st7)"

text \<open>
  The recursion of the source stops only at \<open>level === 0\<close>; a call that never reaches
  it does not return, which is the value \<open>None\<close> here.
\<close>

partial_function (option) subdivideTetrahedron ::
  "Vector3 \<Rightarrow> Vector3 \<Rightarrow> Vector3 \<Rightarrow> Vector3 \<Rightarrow> int \<Rightarrow> GenState \<Rightarrow> GenState option" where
  "subdivideTetrahedron p1 p2 p3 p4 level st =
     (if level = 0 then Some (tetrahedronLeaf p1 p2 p3 p4 st)
      else
        (let m12 = multiplyScalar (add p1 p2) (1 / 2);
             m13 = multiplyScalar (add p1 p3) (1 / 2);
             m14 = multiplyScalar (add p1 p4) (1 / 2);
             m23 = multiplyScalar (add p2 p3) (1 / 2);
             m24 = multiplyScalar (add p2 p4) (1 / 2);
             m34 = multiplyScalar (add p3 p4) (1 / 2)
         in do {
           st1 \<leftarrow> subdivideTetrahedron p1 m12 m13 m14 (level - 1) st;
           st2 \<leftarrow> subdivideTetrahedron m12 p2 m23 m24 (level - 1) st1;
           st3 \<leftarrow> subdivideTetrahedron m13 m23 p3 m34 (level - 1) st2;
           subdivideTetrahedron m14 m24 m34 p4 (level - 1) st3
         }))"

definition emptyState :: GenState where
  "emptyState =
     \<lparr>bufferVertices = [], bufferIndices = [], exportVertices = [], exportFaces = [],
      vertexMap = Map.empty\<rparr>"

definition toOutput :: "GenState \<Rightarrow> GenerationOutput" where
  "toOutput st =
     \<lparr>bufferVertices = bufferVertices st, bufferIndices = bufferIndices st,
      exportVertices = exportVertices st, exportFaces = exportFaces st\<rparr>"

definition generateSierpinskiTetrahedron :: "int \<Rightarrow> rat \<Rightarrow> GenerationOutput option" where
  "generateSierpinskiTetrahedron level sz =
     (let p1 = newVector3 sz sz sz;
          p2 = newVector3 sz (- sz) (- sz);
          p3 = newVector3 (- sz) sz (- sz);
          p4 = newVector3 (- sz) (- sz) sz
      in map_option toOutput (subdivideTetrahedron p1 p2 p3 p4 level emptyState))"

section \<open>Sponge (cube) fractal\<close>

definition cubeLeaf :: "Vector3 \<Rightarrow> rat \<Rightarrow> GenState \<Rightarrow> GenState" where
  "cubeLeaf center sideLength st =
     (let halfSide = sideLength / 2;
          vertices =
            [newVector3 (vx center - halfSide) (vy center - halfSide) (vz center + halfSide),
             newVector3 (vx center + halfSide) (vy center - halfSide) (vz center + halfSide),
             newVector3 (vx center + halfSide) (vy center + halfSide) (vz center + halfSide),
             newVector3 (vx center - halfSide) (vy center + halfSide) (vz center + halfSide),
             newVector3 (vx center - halfSide) (vy center - halfSide) (vz center - halfSide),
             newVector3 (vx center + halfSide) (vy center - halfSide) (vz center - halfSide),
             newVector3 (vx center + halfSide) (vy center + halfSide) (vz center - halfSide),
             newVector3 (vx center - halfSide) (vy center + halfSide) (vz center - halfSide)];
          (idx, st1) = addUniqueVertices vertices st;
          facesData =
            [[idx ! 0, idx ! 1, idx ! 2], [idx ! 0, idx ! 2, idx ! 3],
             [idx ! 4, idx ! 7, idx ! 6], [idx ! 4, idx ! 6, idx ! 5],
             [idx ! 3, idx ! 2, idx ! 6], [idx ! 3, idx ! 6, idx ! 7],
             [idx ! 0, idx ! 4, idx ! 5], [idx ! 0, idx ! 5, idx ! 1],
             [idx ! 0, idx ! 3, idx ! 7], [idx ! 0, idx ! 7, idx ! 4],
             [idx ! 1, idx ! 5, idx ! 6], [idx ! 1, idx ! 6, idx ! 2]]
      in pushFaces facesData st1)"

definition zeroCount :: "int \<Rightarrow> int \<Rightarrow> int \<Rightarrow> nat" where
  "zeroCount i j k = (if i = 0 then 1 else 0) + (if j = 0 then 1 else 0) + (if k = 0 then 1 else 0)"

text \<open>
  The grid indices at which the three nested loops (\<open>i\<close>, \<open>j\<close>, \<open>k\<close> from \<open>-1\<close> to \<open>1\<close>)
  reach the recursive call, in loop order.
\<close>

definition subCubeIndices :: "(int \<times> int \<times> int) list" where
  "subCubeIndices =
     concat (map (\<lambda>i. concat (map (\<lambda>j. concat (map (\<lambda>k.
       if zeroCount i j k < 2 then [(i, j, k)] else []) [-1, 0, 1])) [-1, 0, 1])) [-1, 0, 1])"

partial_function (option) subdivideCube ::
  "Vector3 \<Rightarrow> rat \<Rightarrow> int \<Rightarrow> GenState \<Rightarrow> GenState option" where
  "subdivideCube center sideLength level st =
     (if level = 0 then Some (cubeLeaf center sideLength st)
      else
        (let newSideLength = sideLength / 3 in
         forEachM
           (\<lambda>(i, j, k) st'.
              (let offset = newVector3 (of_int i * newSideLength) (of_int j * newSideLength)
                              (of_int k * newSideLength);
                   newCenter = add center offset
               in subdivideCube newCenter newSideLength (level - 1) st'))
           subCubeIndices st))"

definition generateMengerSponge :: "int \<Rightarrow> rat \<Rightarrow> GenerationOutput option" where
  "generateMengerSponge level sz =
     map_option toOutput (subdivideCube (newVector3 0 0 0) sz level emptyState)"

section \<open>Octahedron fractal\<close>

definition octahedronLeaf :: "Vector3 \<Rightarrow> rat \<Rightarrow> GenState \<Rightarrow> GenState" where
  "octahedronLeaf center scale st =
     (let vertices =
            [newVector3 (vx center) (vy center + scale) (vz center),
             newVector3 (vx center) (vy center - scale) (vz center),
             newVector3 (vx center + scale) (vy center) (vz center),
             newVector3 (vx center - scale) (vy center) (vz center),
             newVector3 (vx center) (vy center) (vz center + scale),
             newVector3 (vx center) (vy center) (vz center - scale)];
          (idx, st1) = addUniqueVertices vertices st;
          facesData =
            [[idx ! 0, idx ! 4, idx ! 2], [idx ! 0, idx ! 2, idx ! 5],
             [idx ! 0, idx ! 5, idx ! 3], [idx ! 0, idx ! 3, idx ! 4],
             [idx ! 1, idx ! 2, idx ! 4], [idx ! 1, idx ! 5, idx ! 2],
             [idx ! 1, idx ! 3, idx ! 5], [idx ! 1, idx ! 4, idx ! 3]]
      in pushFaces facesData st1)"

partial_function (option) subdivideOctahedron ::
  "Vector3 \<Rightarrow> rat \<Rightarrow> int \<Rightarrow> GenState \<Rightarrow> GenState option" where
  "subdivideOctahedron center scale level st =
     (if level = 0 then Some (octahedronLeaf center scale st)
      else
        (let newScale = scale * (1 / 2);
             newSubOctahedraCenters =
               [newVector3 (vx center) (vy center + newScale) (vz center),
                newVector3 (vx center) (vy center - newScale) (vz center),
                newVector3 (vx center + newScale) (vy center) (vz center),
                newVector3 (vx center - newScale) (vy center) (vz center),
                newVector3 (vx center) (vy center) (vz center + newScale),
                newVector3 (vx center) (vy center) (vz center - newScale)]
         in forEachM
              (\<lambda>newCenterForSub st'.
                 subdivideOctahedron newCenterForSub newScale (level - 1) st')
              newSubOctahedraCenters st))"

definition generateSierpinskiOctahedron :: "int \<Rightarrow> rat \<Rightarrow> GenerationOutput option" where
  "generateSierpinskiOctahedron level sz =
     map_option toOutput (subdivideOctahedron (newVector3 0 0 0) sz level emptyState)"

text \<open>The caller's dispatch on the fractal kind (\<open>generateFractalLogic\<close> in \<open>App.tsx\<close>).\<close>

definition generate :: "FractalType \<Rightarrow> int \<Rightarrow> rat \<Rightarrow> GenerationOutput option" where
  "generate kind level sz =
     (if kind = SierpinskiTetrahedron then generateSierpinskiTetrahedron level sz
      else if kind = MengerSponge then generateMengerSponge level sz
      else generateSierpinskiOctahedron level sz)"

section \<open>Vocabulary of the specification\<close>

text \<open>
  The render-ready layout of the two flat buffers: three numbers per point, three
  indices per face.
\<close>

definition flatVertices :: "Vector3 list \<Rightarrow> rat list" where
  "flatVertices vs = concat (map (\<lambda>v. [vx v, vy v, vz v]) vs)"

definition flatFaces :: "Face list \<Rightarrow> nat list" where
  "flatFaces fs = concat (map (\<lambda>f. [v1 f, v2 f, v3 f]) fs)"

text \<open>
  The invariant of a generation state: both buffers are the flattened lists, every index
  of a face is the index of a point, and the map holds exactly the keys of the points,
  each with the index of its point.
\<close>

definition consistent :: "GenState \<Rightarrow> bool" where
  "consistent st \<longleftrightarrow>
     bufferVertices st = flatVertices (exportVertices st) \<and>
     bufferIndices st = flatFaces (exportFaces st) \<and>
     (\<forall>f \<in> set (exportFaces st).
        v1 f < length (exportVertices st) \<and> v2 f < length (exportVertices st) \<and>
        v3 f < length (exportVertices st)) \<and>
     (\<forall>k i. vertexMap st k = Some i \<longleftrightarrow>
        i < length (exportVertices st) \<and> vertexKey (exportVertices st ! i) = k)"

text \<open>
  What the three level-0 branches have in common: weld a list of corners, then push the
  faces of a table of corner positions. Each branch is shown equal to an instance of it.
\<close>

definition emitCell :: "Vector3 list \<Rightarrow> nat list list \<Rightarrow> GenState \<Rightarrow> GenState" where
  "emitCell vertices table st =
     (let (idx, st1) = addUniqueVertices vertices st
      in pushFaces (map (map (\<lambda>k. idx ! k)) table) st1)"


definition tetrahedronTable :: "nat list list" where
  "tetrahedronTable = [[0, 2, 1], [0, 1, 3], [0, 3, 2], [1, 2, 3]]"

definition cubeVertices :: "Vector3 \<Rightarrow> rat \<Rightarrow> Vector3 list" where
  "cubeVertices center sideLength =
     (let halfSide = sideLength / 2 in
      [newVector3 (vx center - halfSide) (vy center - halfSide) (vz center + halfSide),
       newVector3 (vx center + halfSide) (vy center - halfSide) (vz center + halfSide),
       newVector3 (vx center + halfSide) (vy center + halfSide) (vz center + halfSide),
       newVector3 (vx center - halfSide) (vy center + halfSide) (vz center + halfSide),
       newVector3 (vx center - halfSide) (vy center - halfSide) (vz center - halfSide),
       newVector3 (vx center + halfSide) (vy center - halfSide) (vz center - halfSide),
       newVector3 (vx center + halfSide) (vy center + halfSide) (vz center - halfSide),
       newVector3 (vx center - halfSide) (vy center + halfSide) (vz center - halfSide)])"

definition cubeTable :: "nat list list" where
  "cubeTable =
     [[0, 1, 2], [0, 2, 3], [4, 7, 6], [4, 6, 5], [3, 2, 6], [3, 6, 7],
      [0, 4, 5], [0, 5, 1], [0, 3, 7], [0, 7, 4], [1, 5, 6], [1, 6, 2]]"

definition octahedronVertices :: "Vector3 \<Rightarrow> rat \<Rightarrow> Vector3 list" where
  "octahedronVertices center scale =
     [newVector3 (vx center) (vy center + scale) (vz center),
      newVector3 (vx center) (vy center - scale) (vz center),
      newVector3 (vx center + scale) (vy center) (vz center),
      newVector3 (vx center - scale) (vy center) (vz center),
      newVector3 (vx center) (vy center) (vz center + scale),
      newVector3 (vx center) (vy center) (vz center - scale)]"

definition octahedronTable :: "nat list list" where
  "octahedronTable =
     [[0, 4, 2], [0, 2, 5], [0, 5, 3], [0, 3, 4], [1, 2, 4], [1, 5, 2], [1, 3, 5], [1, 4, 3]]"

text \<open>
  A face table over \<open>n\<close> corners: rows of three different positions below \<open>n\<close>.
\<close>

definition wellFormedTable :: "nat \<Rightarrow> nat list list \<Rightarrow> bool" where
  "wellFormedTable n table \<longleftrightarrow>
     (\<forall>row \<in> set table. length row = 3 \<and> distinct row \<and> (\<forall>k \<in> set row. k < n))"

text \<open>One more cell, or one more subdivided cell, on a consistent state.\<close>

definition grows :: "GenState \<Rightarrow> GenState \<Rightarrow> bool" where
  "grows st st' \<longleftrightarrow> consistent st' \<and> length (exportFaces st) < length (exportFaces st')"

text \<open>
  Reading a rendering back: the value of a string of digits, the integer that
  \<open>toFixed5\<close> renders, and its digits padded to six.
\<close>

definition digitValue :: "char \<Rightarrow> nat" where
  "digitValue c = of_char c - 48"

definition stringToNat :: "string \<Rightarrow> nat" where
  "stringToNat s = foldl (\<lambda>a c. 10 * a + digitValue c) 0 s"

definition roundedScaled :: "rat \<Rightarrow> nat" where
  "roundedScaled x = nat \<lfloor>\<bar>x\<bar> * 100000 + 1 / 2\<rfloor>"

definition paddedDigits :: "nat \<Rightarrow> string" where
  "paddedDigits n =
     (let m = natToString n; k = length m
      in if k \<le> 5 then replicate (6 - k) (CHR ''0'') @ m else m)"

text \<open>
  The grid on which every corner of the sponge of level 1 and size 3 lies.
\<close>

definition gridCoordinates :: "rat set" where
  "gridCoordinates = {- (3 / 2), - (1 / 2), 1 / 2, 3 / 2}"

definition gridPoints :: "Vector3 set" where
  "gridPoints = {p. vx p \<in> gridCoordinates \<and> vy p \<in> gridCoordinates \<and> vz p \<in> gridCoordinates}"

text \<open>
  Two points closer than \<open>0.00001\<close> in each of their three coordinates.
\<close>

definition withinWeldTolerance :: "Vector3 \<Rightarrow> Vector3 \<Rightarrow> bool" where
  "withinWeldTolerance p q \<longleftrightarrow>
     \<bar>vx p - vx q\<bar> < 1 / 100000 \<and> \<bar>vy p - vy q\<bar> < 1 / 100000 \<and> \<bar>vz p - vz q\<bar> < 1 / 100000"




text \<open>
  The level-0 cells that a subdivision call reaches, in the order of the recursion: for
  the tetrahedron the four corner points of each cell, for the cube and the octahedron
  the centre and the size of each cell. They are read off the recursive branches of
  \<open>subdivideTetrahedron\<close>, \<open>subdivideCube\<close> and \<open>subdivideOctahedron\<close>; each call is
  shown below to return what emitting these cells one after the other returns.
\<close>

fun tetrahedronCells ::
  "Vector3 \<Rightarrow> Vector3 \<Rightarrow> Vector3 \<Rightarrow> Vector3 \<Rightarrow> nat \<Rightarrow> Vector3 list list" where
  "tetrahedronCells p1 p2 p3 p4 0 = [[p1, p2, p3, p4]]"
| "tetrahedronCells p1 p2 p3 p4 (Suc n) =
     (let m12 = multiplyScalar (add p1 p2) (1 / 2);
          m13 = multiplyScalar (add p1 p3) (1 / 2);
          m14 = multiplyScalar (add p1 p4) (1 / 2);
          m23 = multiplyScalar (add p2 p3) (1 / 2);
          m24 = multiplyScalar (add p2 p4) (1 / 2);
          m34 = multiplyScalar (add p3 p4) (1 / 2)
      in tetrahedronCells p1 m12 m13 m14 n @ tetrahedronCells m12 p2 m23 m24 n @
         tetrahedronCells m13 m23 p3 m34 n @ tetrahedronCells m14 m24 m34 p4 n)"

fun cubeCells :: "Vector3 \<Rightarrow> rat \<Rightarrow> nat \<Rightarrow> (Vector3 \<times> rat) list" where
  "cubeCells center sideLength 0 = [(center, sideLength)]"
| "cubeCells center sideLength (Suc n) =
     concat (map (\<lambda>(i, j, k).
         cubeCells
           (add center (newVector3 (of_int i * (sideLength / 3)) (of_int j * (sideLength / 3))
              (of_int k * (sideLength / 3))))
           (sideLength / 3) n)
       subCubeIndices)"

text \<open>
  The rule of the specification for one step on an octahedron: six new absolute centres,
  the centre moved by half the scale up and down the \<open>y\<close>, \<open>x\<close> and \<open>z\<close> axes, to
  which nothing is added afterwards; each is subdivided with half the scale at the
  level below.
\<close>

definition subOctahedronCenters :: "Vector3 \<Rightarrow> rat \<Rightarrow> Vector3 list" where
  "subOctahedronCenters center scale =
     [newVector3 (vx center) (vy center + scale / 2) (vz center),
      newVector3 (vx center) (vy center - scale / 2) (vz center),
      newVector3 (vx center + scale / 2) (vy center) (vz center),
      newVector3 (vx center - scale / 2) (vy center) (vz center),
      newVector3 (vx center) (vy center) (vz center + scale / 2),
      newVector3 (vx center) (vy center) (vz center - scale / 2)]"

fun octahedronCells :: "Vector3 \<Rightarrow> rat \<Rightarrow> nat \<Rightarrow> (Vector3 \<times> rat) list" where
  "octahedronCells center scale 0 = [(center, scale)]"
| "octahedronCells center scale (Suc n) =
     concat (map (\<lambda>c. octahedronCells c (scale / 2) n) (subOctahedronCenters center scale))"

text \<open>
  The corners of the level-0 cells of a generation call, its face table, and the
  emission of a list of cells.
\<close>

definition leafCells :: "FractalType \<Rightarrow> nat \<Rightarrow> rat \<Rightarrow> Vector3 list list" where
  "leafCells kind n sz =
     (case kind of
        SierpinskiTetrahedron \<Rightarrow>
          tetrahedronCells (newVector3 sz sz sz) (newVector3 sz (- sz) (- sz))
            (newVector3 (- sz) sz (- sz)) (newVector3 (- sz) (- sz) sz) n
      | MengerSponge \<Rightarrow>
          map (\<lambda>(c, s). cubeVertices c s) (cubeCells (newVector3 0 0 0) sz n)
      | SierpinskiOctahedron \<Rightarrow>
          map (\<lambda>(c, r). octahedronVertices c r) (octahedronCells (newVector3 0 0 0) sz n))"

definition leafTable :: "FractalType \<Rightarrow> nat list list" where
  "leafTable kind =
     (case kind of
        SierpinskiTetrahedron \<Rightarrow> tetrahedronTable
      | MengerSponge \<Rightarrow> cubeTable
      | SierpinskiOctahedron \<Rightarrow> octahedronTable)"

definition emitCells :: "nat list list \<Rightarrow> Vector3 list list \<Rightarrow> GenState \<Rightarrow> GenState" where
  "emitCells table cells st = foldl (\<lambda>s cell. emitCell cell table s) st cells"

text \<open>
  Containers of bounded capacity. A JavaScript array holds at most \<open>2^32 - 1\<close>
  elements, an engine may stop earlier, and a \<open>push\<close> beyond the capacity raises
  \<open>RangeError\<close>; an engine bounds the number of keys of a \<open>Map\<close> as well, and a
  \<open>set\<close> beyond raises. The caller of the generators catches the error and reports
  it. The generators above run on unbounded containers. During a call the four arrays
  and the map only grow, and the map holds one key for each point, so an insertion
  fails at some point of a call exactly when the containers that the same call builds
  without bounds end larger than the capacities. \<open>generateWithin arrayCap mapCap\<close> is
  the call on arrays of capacity \<open>arrayCap\<close> and a map of capacity \<open>mapCap\<close>:
  \<open>Inl RangeError\<close> when it raises, \<open>Inr\<close> of the output when it returns, and
  \<open>None\<close> when it does neither.
\<close>

datatype error = RangeError

definition fits :: "nat \<Rightarrow> nat \<Rightarrow> GenerationOutput \<Rightarrow> bool" where
  "fits arrayCap mapCap out \<longleftrightarrow>
     length (bufferVertices out) \<le> arrayCap \<and> length (bufferIndices out) \<le> arrayCap \<and>
     length (exportVertices out) \<le> arrayCap \<and> length (exportFaces out) \<le> arrayCap \<and>
     length (exportVertices out) \<le> mapCap"

definition generateWithin ::
  "nat \<Rightarrow> nat \<Rightarrow> FractalType \<Rightarrow> int \<Rightarrow> rat \<Rightarrow> (error + GenerationOutput) option" where
  "generateWithin arrayCap mapCap kind level sz =
     map_option (\<lambda>out. if fits arrayCap mapCap out then Inr out else Inl RangeError)
       (generate kind level sz)"

text \<open>
  The number of entries of the index buffer: three per face, 4, 12 or 8 faces per
  level-0 cell, and 4, 20 or 6 times as many cells with each level.
\<close>

definition indexEntries :: "FractalType \<Rightarrow> nat \<Rightarrow> nat" where
  "indexEntries kind n =
     (case kind of
        SierpinskiTetrahedron \<Rightarrow> 12 * 4 ^ n
      | MengerSponge \<Rightarrow> 36 * 20 ^ n
      | SierpinskiOctahedron \<Rightarrow> 24 * 6 ^ n)"

section \<open>Consistency of the generation state\<close>

lemma consistent_emptyState: "consistent emptyState"
  by (simp add: consistent_def emptyState_def flatVertices_def flatFaces_def)

lemma flatVertices_append: "flatVertices (xs @ ys) = flatVertices xs @ flatVertices ys"
  by (simp add: flatVertices_def)

lemma flatFaces_append: "flatFaces (xs @ ys) = flatFaces xs @ flatFaces ys"
  by (simp add: flatFaces_def)

lemma addUniqueVertex_cases:
  obtains (hit) i where "vertexMap st (vertexKey p) = Some i" "addUniqueVertex p st = (i, st)"
  | (miss) "vertexMap st (vertexKey p) = None"
      "addUniqueVertex p st =
         (length (exportVertices st),
          st\<lparr>bufferVertices := bufferVertices st @ [vx p, vy p, vz p],
             exportVertices := exportVertices st @ [p],
             vertexMap := (vertexMap st)(vertexKey p \<mapsto> length (exportVertices st))\<rparr>)"
  by (cases "vertexMap st (vertexKey p)") (auto simp: addUniqueVertex_def Let_def)

lemma addUniqueVertex_consistent:
  assumes "consistent st" and "addUniqueVertex p st = (i, st')"
  shows "consistent st'"
    and "i < length (exportVertices st')"
    and "vertexKey (exportVertices st' ! i) = vertexKey p"
    and "exportFaces st' = exportFaces st"
    and "bufferIndices st' = bufferIndices st"
    and "\<exists>ws. exportVertices st' = exportVertices st @ ws \<and> length ws \<le> 1"
proof -
  show "consistent st'"
  proof (cases rule: addUniqueVertex_cases [of st p])
    case (hit j)
    with assms show ?thesis by simp
  next
    case miss
    with assms have st': "st' = st\<lparr>bufferVertices := bufferVertices st @ [vx p, vy p, vz p],
             exportVertices := exportVertices st @ [p],
             vertexMap := (vertexMap st)(vertexKey p \<mapsto> length (exportVertices st))\<rparr>"
      by auto
    from assms(1) miss(1) have nokey:
      "\<And>j. j < length (exportVertices st) \<Longrightarrow> vertexKey (exportVertices st ! j) \<noteq> vertexKey p"
      unfolding consistent_def by (metis option.distinct(1))
    from assms(1) show ?thesis
      unfolding consistent_def st'
      by (auto simp: flatVertices_append flatVertices_def nth_append less_Suc_eq nokey)
  qed
  show "i < length (exportVertices st')"
    and "vertexKey (exportVertices st' ! i) = vertexKey p"
    using assms
    by (cases rule: addUniqueVertex_cases [of st p]; auto simp: consistent_def)+
  show "exportFaces st' = exportFaces st" and "bufferIndices st' = bufferIndices st"
    and "\<exists>ws. exportVertices st' = exportVertices st @ ws \<and> length ws \<le> 1"
    using assms
    by (cases rule: addUniqueVertex_cases [of st p]; auto)+
qed

lemma addUniqueVertices_consistent:
  assumes "consistent st" and "addUniqueVertices vs st = (js, st')"
  shows "consistent st' \<and> length js = length vs \<and>
         exportFaces st' = exportFaces st \<and> bufferIndices st' = bufferIndices st \<and>
         (\<exists>ws. exportVertices st' = exportVertices st @ ws \<and> length ws \<le> length vs) \<and>
         (\<forall>n < length vs. js ! n < length (exportVertices st') \<and>
            vertexKey (exportVertices st' ! (js ! n)) = vertexKey (vs ! n))"
  using assms
proof (induction vs arbitrary: st js st')
  case Nil
  then show ?case by simp
next
  case (Cons v vs)
  obtain i st1 where first: "addUniqueVertex v st = (i, st1)"
    by (cases "addUniqueVertex v st")
  obtain ks st2 where rest: "addUniqueVertices vs st1 = (ks, st2)"
    by (cases "addUniqueVertices vs st1")
  from Cons.prems(2) first rest have js: "js = i # ks" and st': "st' = st2"
    by simp_all
  note h = addUniqueVertex_consistent [OF Cons.prems(1) first]
  note ih = Cons.IH [OF h(1) rest]
  from h(6) obtain w1 where w1: "exportVertices st1 = exportVertices st @ w1" "length w1 \<le> 1"
    by blast
  from ih obtain w2 where w2: "exportVertices st2 = exportVertices st1 @ w2" "length w2 \<le> length vs"
    by blast
  have ext: "\<exists>ws. exportVertices st' = exportVertices st @ ws \<and> length ws \<le> length (v # vs)"
    using w1 w2 unfolding st' by (intro exI [of _ "w1 @ w2"]) simp
  have head: "i < length (exportVertices st2)"
    "vertexKey (exportVertices st2 ! i) = vertexKey v"
    using h(2,3) w2(1) by (simp_all add: nth_append)
  have nths: "\<forall>n < length (v # vs). js ! n < length (exportVertices st') \<and>
            vertexKey (exportVertices st' ! (js ! n)) = vertexKey ((v # vs) ! n)"
  proof (intro allI impI)
    fix n assume "n < length (v # vs)"
    then show "js ! n < length (exportVertices st') \<and>
            vertexKey (exportVertices st' ! (js ! n)) = vertexKey ((v # vs) ! n)"
      using head ih unfolding js st' by (cases n) simp_all
  qed
  from ih h(4,5) ext nths show ?case
    unfolding js st' by simp
qed

lemma pushFaces_effect:
  "exportVertices (pushFaces fd st) = exportVertices st \<and>
   bufferVertices (pushFaces fd st) = bufferVertices st \<and>
   vertexMap (pushFaces fd st) = vertexMap st \<and>
   bufferIndices (pushFaces fd st) = bufferIndices st @ concat fd \<and>
   exportFaces (pushFaces fd st) =
     exportFaces st @ map (\<lambda>f. \<lparr>v1 = f ! 0, v2 = f ! 1, v3 = f ! 2\<rparr>) fd"
  by (induction fd arbitrary: st) simp_all

lemma pushFace_pushFaces: "pushFace a b c st = pushFaces [[a, b, c]] st"
  by (simp add: pushFace_def)

lemma triple_nths: "length f = 3 \<Longrightarrow> f = [f ! 0, f ! 1, f ! 2]"
  by (cases f; cases "tl f"; cases "tl (tl f)") auto

lemma flatFaces_of_rows:
  "\<forall>f \<in> set fd. length f = 3 \<Longrightarrow>
   flatFaces (map (\<lambda>f. \<lparr>v1 = f ! 0, v2 = f ! 1, v3 = f ! 2\<rparr>) fd) = concat fd"
proof (induction fd)
  case Nil
  show ?case by (simp add: flatFaces_def)
next
  case (Cons f fd)
  then have "length f = 3" by simp
  from triple_nths [OF this] Cons show ?case
    by (simp add: flatFaces_def)
qed

lemma pushFaces_consistent:
  assumes "consistent st"
    and "\<forall>f \<in> set fd. length f = 3 \<and> (\<forall>i \<in> set f. i < length (exportVertices st))"
  shows "consistent (pushFaces fd st)"
proof -
  from assms(2) have rows: "\<forall>f \<in> set fd. length f = 3" by blast
  have small: "f ! 0 < length (exportVertices st) \<and> f ! 1 < length (exportVertices st) \<and>
      f ! 2 < length (exportVertices st)" if "f \<in> set fd" for f
  proof -
    from that assms(2) have "length f = 3" and b: "\<forall>i \<in> set f. i < length (exportVertices st)"
      by blast+
    then have "f ! 0 \<in> set f" "f ! 1 \<in> set f" "f ! 2 \<in> set f" by simp_all
    with b show ?thesis by blast
  qed
  from assms(1) show ?thesis
    unfolding consistent_def
    by (auto simp del: One_nat_def
        simp: pushFaces_effect flatFaces_append flatFaces_of_rows [OF rows] small)
qed

lemma tetrahedronLeaf_emitCell:
  "tetrahedronLeaf p1 p2 p3 p4 st = emitCell [p1, p2, p3, p4] tetrahedronTable st"
  by (simp add: tetrahedronLeaf_def emitCell_def tetrahedronTable_def pushFace_def
      split: prod.splits)

lemma cubeLeaf_emitCell:
  "cubeLeaf center sideLength st = emitCell (cubeVertices center sideLength) cubeTable st"
  by (simp add: cubeLeaf_def emitCell_def cubeVertices_def cubeTable_def Let_def
      split: prod.splits)

lemma octahedronLeaf_emitCell:
  "octahedronLeaf center scale st = emitCell (octahedronVertices center scale) octahedronTable st"
  by (simp add: octahedronLeaf_def emitCell_def octahedronVertices_def octahedronTable_def Let_def
      split: prod.splits)

lemma wellFormedTable_tetrahedron: "wellFormedTable 4 tetrahedronTable"
  by (simp add: wellFormedTable_def tetrahedronTable_def)

lemma wellFormedTable_cube: "wellFormedTable 8 cubeTable"
  by (simp add: wellFormedTable_def cubeTable_def)

lemma wellFormedTable_octahedron: "wellFormedTable 6 octahedronTable"
  by (simp add: wellFormedTable_def octahedronTable_def)

lemma emitCell_consistent:
  assumes "consistent st" and "wellFormedTable (length vs) table"
  shows "consistent (emitCell vs table st)"
    and "length (exportFaces (emitCell vs table st)) = length (exportFaces st) + length table"
    and "\<exists>ws. exportVertices (emitCell vs table st) = exportVertices st @ ws \<and>
           length ws \<le> length vs"
    and "length vs \<noteq> 0 \<Longrightarrow> exportVertices (emitCell vs table st) \<noteq> []"
proof -
  obtain idx st1 where weld: "addUniqueVertices vs st = (idx, st1)"
    by (cases "addUniqueVertices vs st")
  then have cell: "emitCell vs table st = pushFaces (map (map (\<lambda>k. idx ! k)) table) st1"
    by (simp add: emitCell_def)
  note w = addUniqueVertices_consistent [OF assms(1) weld]
  have rows: "\<forall>f \<in> set (map (map (\<lambda>k. idx ! k)) table).
      length f = 3 \<and> (\<forall>i \<in> set f. i < length (exportVertices st1))"
    using assms(2) w unfolding wellFormedTable_def by auto
  from w have "consistent st1" by blast
  from pushFaces_consistent [OF this rows] show "consistent (emitCell vs table st)"
    by (simp add: cell)
  show "length (exportFaces (emitCell vs table st)) = length (exportFaces st) + length table"
    using w by (simp add: cell pushFaces_effect)
  show "\<exists>ws. exportVertices (emitCell vs table st) = exportVertices st @ ws \<and>
           length ws \<le> length vs"
    using w by (simp add: cell pushFaces_effect)
  show "exportVertices (emitCell vs table st) \<noteq> []" if "length vs \<noteq> 0"
  proof -
    from that have "0 < length vs" by simp
    with w have "idx ! 0 < length (exportVertices st1)" by blast
    then show ?thesis by (auto simp: cell pushFaces_effect)
  qed
qed

section \<open>Unfolding and termination of the recursion\<close>

lemma subdivideTetrahedron_0:
  "subdivideTetrahedron p1 p2 p3 p4 0 st = Some (tetrahedronLeaf p1 p2 p3 p4 st)"
  by (subst subdivideTetrahedron.simps) simp

lemma subdivideTetrahedron_step:
  "level \<noteq> 0 \<Longrightarrow>
   subdivideTetrahedron p1 p2 p3 p4 level st =
     (let m12 = multiplyScalar (add p1 p2) (1 / 2);
          m13 = multiplyScalar (add p1 p3) (1 / 2);
          m14 = multiplyScalar (add p1 p4) (1 / 2);
          m23 = multiplyScalar (add p2 p3) (1 / 2);
          m24 = multiplyScalar (add p2 p4) (1 / 2);
          m34 = multiplyScalar (add p3 p4) (1 / 2)
      in do {
        st1 \<leftarrow> subdivideTetrahedron p1 m12 m13 m14 (level - 1) st;
        st2 \<leftarrow> subdivideTetrahedron m12 p2 m23 m24 (level - 1) st1;
        st3 \<leftarrow> subdivideTetrahedron m13 m23 p3 m34 (level - 1) st2;
        subdivideTetrahedron m14 m24 m34 p4 (level - 1) st3
      })"
  by (subst subdivideTetrahedron.simps) simp

lemma subdivideCube_0: "subdivideCube center sideLength 0 st = Some (cubeLeaf center sideLength st)"
  by (subst subdivideCube.simps) simp

lemma subdivideCube_step:
  "level \<noteq> 0 \<Longrightarrow>
   subdivideCube center sideLength level st =
     (let newSideLength = sideLength / 3 in
      forEachM
        (\<lambda>(i, j, k) st'.
           (let offset = newVector3 (of_int i * newSideLength) (of_int j * newSideLength)
                           (of_int k * newSideLength);
                newCenter = add center offset
            in subdivideCube newCenter newSideLength (level - 1) st'))
        subCubeIndices st)"
  by (subst subdivideCube.simps) simp

lemma subdivideOctahedron_0:
  "subdivideOctahedron center scale 0 st = Some (octahedronLeaf center scale st)"
  by (subst subdivideOctahedron.simps) simp

lemma subdivideOctahedron_step:
  "level \<noteq> 0 \<Longrightarrow>
   subdivideOctahedron center scale level st =
     (let newScale = scale * (1 / 2);
          newSubOctahedraCenters =
            [newVector3 (vx center) (vy center + newScale) (vz center),
             newVector3 (vx center) (vy center - newScale) (vz center),
             newVector3 (vx center + newScale) (vy center) (vz center),
             newVector3 (vx center - newScale) (vy center) (vz center),
             newVector3 (vx center) (vy center) (vz center + newScale),
             newVector3 (vx center) (vy center) (vz center - newScale)]
      in forEachM
           (\<lambda>newCenterForSub st'.
              subdivideOctahedron newCenterForSub newScale (level - 1) st')
           newSubOctahedraCenters st)"
  by (subst subdivideOctahedron.simps) simp

lemma grows_trans: "grows a b \<Longrightarrow> grows b c \<Longrightarrow> grows a c"
  by (auto simp: grows_def)

lemma forEachM_grows:
  assumes body: "\<And>a st. a \<in> set as \<Longrightarrow> consistent st \<Longrightarrow> \<exists>st'. body a st = Some st' \<and> grows st st'"
    and "as \<noteq> []" and "consistent st"
  shows "\<exists>st'. forEachM body as st = Some st' \<and> grows st st'"
  using assms
proof (induction as arbitrary: st)
  case Nil
  then show ?case by simp
next
  case (Cons a as)
  from Cons.prems(1) [of a st] Cons.prems(3)
  obtain st1 where st1: "body a st = Some st1" "grows st st1" by auto
  show ?case
  proof (cases "as = []")
    case True
    with st1 show ?thesis by simp
  next
    case False
    from st1(2) have "consistent st1" by (simp add: grows_def)
    from Cons.IH [OF _ False this] Cons.prems(1)
    obtain st2 where "forEachM body as st1 = Some st2" "grows st1 st2" by auto
    with st1 show ?thesis by (auto intro: grows_trans)
  qed
qed

lemma emitCell_grows:
  "consistent st \<Longrightarrow> wellFormedTable (length vs) table \<Longrightarrow> table \<noteq> [] \<Longrightarrow>
   grows st (emitCell vs table st)"
  by (simp add: grows_def emitCell_consistent)

lemma tetrahedronLeaf_grows:
  assumes "consistent st"
  shows "grows st (tetrahedronLeaf p1 p2 p3 p4 st)"
proof -
  have "length [p1, p2, p3, p4] = 4"
    by simp
  then have "wellFormedTable (length [p1, p2, p3, p4]) tetrahedronTable"
    using wellFormedTable_tetrahedron by (simp only:)
  moreover have "tetrahedronTable \<noteq> []"
    by (simp add: tetrahedronTable_def)
  ultimately show ?thesis
    unfolding tetrahedronLeaf_emitCell using assms by (rule emitCell_grows [rotated])
qed

lemma length_cubeVertices: "length (cubeVertices center sideLength) = 8"
  by (simp add: cubeVertices_def Let_def)

lemma length_octahedronVertices: "length (octahedronVertices center scale) = 6"
  by (simp add: octahedronVertices_def)

lemma cubeLeaf_grows:
  assumes "consistent st"
  shows "grows st (cubeLeaf center sideLength st)"
proof -
  have "wellFormedTable (length (cubeVertices center sideLength)) cubeTable"
    using wellFormedTable_cube by (simp only: length_cubeVertices)
  moreover have "cubeTable \<noteq> []"
    by (simp add: cubeTable_def)
  ultimately show ?thesis
    unfolding cubeLeaf_emitCell using assms by (rule emitCell_grows [rotated])
qed

lemma octahedronLeaf_grows:
  assumes "consistent st"
  shows "grows st (octahedronLeaf center scale st)"
proof -
  have "wellFormedTable (length (octahedronVertices center scale)) octahedronTable"
    using wellFormedTable_octahedron by (simp only: length_octahedronVertices)
  moreover have "octahedronTable \<noteq> []"
    by (simp add: octahedronTable_def)
  ultimately show ?thesis
    unfolding octahedronLeaf_emitCell using assms by (rule emitCell_grows [rotated])
qed

lemma subdivideTetrahedron_returns:
  "consistent st \<Longrightarrow>
   \<exists>st'. subdivideTetrahedron p1 p2 p3 p4 (int n) st = Some st' \<and> grows st st'"
proof (induction n arbitrary: p1 p2 p3 p4 st)
  case 0
  then show ?case by (simp add: subdivideTetrahedron_0 tetrahedronLeaf_grows)
next
  case (Suc n)
  define m12 where "m12 = multiplyScalar (add p1 p2) (1 / 2)"
  define m13 where "m13 = multiplyScalar (add p1 p3) (1 / 2)"
  define m14 where "m14 = multiplyScalar (add p1 p4) (1 / 2)"
  define m23 where "m23 = multiplyScalar (add p2 p3) (1 / 2)"
  define m24 where "m24 = multiplyScalar (add p2 p4) (1 / 2)"
  define m34 where "m34 = multiplyScalar (add p3 p4) (1 / 2)"
  from Suc.IH [OF Suc.prems, of p1 m12 m13 m14]
  obtain st1 where s1: "subdivideTetrahedron p1 m12 m13 m14 (int n) st = Some st1" "grows st st1"
    by blast
  then have "consistent st1" by (simp add: grows_def)
  from Suc.IH [OF this, of m12 p2 m23 m24]
  obtain st2 where s2: "subdivideTetrahedron m12 p2 m23 m24 (int n) st1 = Some st2" "grows st1 st2"
    by blast
  then have "consistent st2" by (simp add: grows_def)
  from Suc.IH [OF this, of m13 m23 p3 m34]
  obtain st3 where s3: "subdivideTetrahedron m13 m23 p3 m34 (int n) st2 = Some st3" "grows st2 st3"
    by blast
  then have "consistent st3" by (simp add: grows_def)
  from Suc.IH [OF this, of m14 m24 m34 p4]
  obtain st4 where s4: "subdivideTetrahedron m14 m24 m34 p4 (int n) st3 = Some st4" "grows st3 st4"
    by blast
  have "subdivideTetrahedron p1 p2 p3 p4 (int (Suc n)) st = Some st4"
    using s1(1) s2(1) s3(1) s4(1)
    by (subst subdivideTetrahedron_step)
      (simp_all add: m12_def m13_def m14_def m23_def m24_def m34_def)
  moreover have "grows st st4"
    using s1(2) s2(2) s3(2) s4(2) by (blast intro: grows_trans)
  ultimately show ?case by blast
qed

lemma subCubeIndices_nonempty: "subCubeIndices \<noteq> []"
  by (simp add: subCubeIndices_def zeroCount_def)

lemma subdivideCube_returns:
  "consistent st \<Longrightarrow>
   \<exists>st'. subdivideCube center sideLength (int n) st = Some st' \<and> grows st st'"
proof (induction n arbitrary: center sideLength st)
  case 0
  then show ?case by (simp add: subdivideCube_0 cubeLeaf_grows)
next
  case (Suc n)
  have step: "subdivideCube center sideLength (int (Suc n)) st =
      forEachM
        (\<lambda>(i, j, k) st'.
           subdivideCube
             (add center (newVector3 (of_int i * (sideLength / 3)) (of_int j * (sideLength / 3))
                (of_int k * (sideLength / 3))))
             (sideLength / 3) (int n) st')
        subCubeIndices st"
    by (subst subdivideCube_step) (simp_all add: Let_def)
  show ?case
    unfolding step
    by (rule forEachM_grows [OF _ subCubeIndices_nonempty Suc.prems])
      (auto simp: Suc.IH)
qed

lemma subdivideOctahedron_returns:
  "consistent st \<Longrightarrow>
   \<exists>st'. subdivideOctahedron center scale (int n) st = Some st' \<and> grows st st'"
proof (induction n arbitrary: center scale st)
  case 0
  then show ?case by (simp add: subdivideOctahedron_0 octahedronLeaf_grows)
next
  case (Suc n)
  have step: "subdivideOctahedron center scale (int (Suc n)) st =
      forEachM (\<lambda>newCenterForSub st'. subdivideOctahedron newCenterForSub (scale * (1 / 2)) (int n) st')
        [newVector3 (vx center) (vy center + scale * (1 / 2)) (vz center),
         newVector3 (vx center) (vy center - scale * (1 / 2)) (vz center),
         newVector3 (vx center + scale * (1 / 2)) (vy center) (vz center),
         newVector3 (vx center - scale * (1 / 2)) (vy center) (vz center),
         newVector3 (vx center) (vy center) (vz center + scale * (1 / 2)),
         newVector3 (vx center) (vy center) (vz center - scale * (1 / 2))] st"
    by (subst subdivideOctahedron_step) (simp_all add: Let_def)
  show ?case
    unfolding step
    by (rule forEachM_grows [OF _ _ Suc.prems]) (auto simp: Suc.IH)
qed

text \<open>Every generation call at a level from 0 on returns, from a consistent final state.\<close>

lemma generate_returns:
  assumes "0 \<le> level"
  shows "\<exists>st. generate kind level sz = Some (toOutput st) \<and> consistent st \<and>
    exportFaces st \<noteq> []"
proof -
  from assms obtain n where level: "level = int n"
    by (metis nonneg_int_cases)
  have nonempty: "exportFaces st \<noteq> []" if "grows emptyState st" for st
    using that by (auto simp: grows_def)
  show ?thesis
  proof (cases kind)
    case SierpinskiTetrahedron
    from subdivideTetrahedron_returns [OF consistent_emptyState]
    show ?thesis
      unfolding generate_def generateSierpinskiTetrahedron_def Let_def level SierpinskiTetrahedron
      by (metis (no_types, lifting) grows_def nonempty option.simps(9))
  next
    case MengerSponge
    from subdivideCube_returns [OF consistent_emptyState]
    show ?thesis
      unfolding generate_def generateMengerSponge_def level MengerSponge
      by (metis (no_types, lifting) FractalType.distinct(1) grows_def nonempty option.simps(9))
  next
    case SierpinskiOctahedron
    from subdivideOctahedron_returns [OF consistent_emptyState]
    show ?thesis
      unfolding generate_def generateSierpinskiOctahedron_def level SierpinskiOctahedron
      by (metis (no_types, lifting) FractalType.distinct(3,5) grows_def nonempty option.simps(9))
  qed
qed

section \<open>The flat buffers and the keys of the output\<close>

lemma nth_flatVertices:
  "i < length vs \<Longrightarrow>
   flatVertices vs ! (3 * i) = vx (vs ! i) \<and>
   flatVertices vs ! Suc (3 * i) = vy (vs ! i) \<and>
   flatVertices vs ! Suc (Suc (3 * i)) = vz (vs ! i)"
proof (induction vs arbitrary: i)
  case Nil
  then show ?case by simp
next
  case (Cons v vs)
  show ?case
  proof (cases i)
    case 0
    then show ?thesis by (simp add: flatVertices_def)
  next
    case (Suc j)
    with Cons.prems have "j < length vs" by simp
    from Cons.IH [OF this] show ?thesis
      unfolding Suc by (simp add: flatVertices_def numeral_3_eq_3 numeral_2_eq_2)
  qed
qed

lemma nth_flatFaces:
  "j < length fs \<Longrightarrow>
   flatFaces fs ! (3 * j) = v1 (fs ! j) \<and>
   flatFaces fs ! Suc (3 * j) = v2 (fs ! j) \<and>
   flatFaces fs ! Suc (Suc (3 * j)) = v3 (fs ! j)"
proof (induction fs arbitrary: j)
  case Nil
  then show ?case by simp
next
  case (Cons f fs)
  show ?case
  proof (cases j)
    case 0
    then show ?thesis by (simp add: flatFaces_def)
  next
    case (Suc k)
    with Cons.prems have "k < length fs" by simp
    from Cons.IH [OF this] show ?thesis
      unfolding Suc by (simp add: flatFaces_def numeral_3_eq_3 numeral_2_eq_2)
  qed
qed

lemma length_flatVertices: "length (flatVertices vs) = 3 * length vs"
  by (induction vs) (simp_all add: flatVertices_def)

lemma length_flatFaces: "length (flatFaces fs) = 3 * length fs"
  by (induction fs) (simp_all add: flatFaces_def)

lemma consistent_distinct_keys:
  assumes "consistent st"
  shows "distinct (map vertexKey (exportVertices st))"
proof -
  have "i = j" if "i < length (exportVertices st)" "j < length (exportVertices st)"
    "vertexKey (exportVertices st ! i) = vertexKey (exportVertices st ! j)" for i j
  proof -
    from assms that have "vertexMap st (vertexKey (exportVertices st ! j)) = Some i"
      "vertexMap st (vertexKey (exportVertices st ! j)) = Some j"
      unfolding consistent_def by blast+
    then show ?thesis by simp
  qed
  then show ?thesis
    by (auto simp: distinct_conv_nth)
qed

lemma toOutput_fields:
  "bufferVertices (toOutput st) = bufferVertices st"
  "bufferIndices (toOutput st) = bufferIndices st"
  "exportVertices (toOutput st) = exportVertices st"
  "exportFaces (toOutput st) = exportFaces st"
  by (simp_all add: toOutput_def)

lemma forEachM_Nil_fun: "forEachM body [] = Some"
  by (rule ext) simp

lemma forEachM_Cons_fun:
  "forEachM body (a # as) = (\<lambda>st. Option.bind (body a st) (forEachM body as))"
  by (rule ext) simp

section \<open>Evaluating the rendering to five decimals\<close>

lemma natToString_small: "n < 10 \<Longrightarrow> natToString n = [digitChar n]"
  by (subst natToString.simps) simp

lemma natToString_large:
  "\<not> n < 10 \<Longrightarrow> natToString n = natToString (n div 10) @ [digitChar (n mod 10)]"
  by (subst natToString.simps) simp

lemma floor_rat_numeral_div: "\<lfloor>numeral a / numeral b :: rat\<rfloor> = numeral a div numeral b"
  by (metis floor_divide_of_int_eq of_int_numeral)

lemma floor_rat_one_div: "\<lfloor>1 / numeral b :: rat\<rfloor> = 1 div numeral b"
  by (metis floor_divide_of_int_eq of_int_numeral of_int_1)

lemma replicate_numeral_Cons: "replicate (numeral k) a = a # replicate (pred_numeral k) a"
  by (simp add: numeral_eq_Suc)

lemmas toFixed5_eval = replicate_numeral_Cons toFixed5_def natToString_small natToString_large
  digitChar_def Let_def floor_rat_numeral_div floor_rat_one_div

lemma toFixed5_0: "toFixed5 0 = ''0.00000''"
  by (simp add: toFixed5_eval)

lemma toFixed5_1: "toFixed5 1 = ''1.00000''"
  by (simp add: toFixed5_eval)

lemma toFixed5_m1: "toFixed5 (- 1) = ''-1.00000''"
  by (simp add: toFixed5_eval)

lemma toFixed5_2: "toFixed5 2 = ''2.00000''"
  by (simp add: toFixed5_eval)

lemma toFixed5_3: "toFixed5 3 = ''3.00000''"
  by (simp add: toFixed5_eval)

lemma toFixed5_4: "toFixed5 4 = ''4.00000''"
  by (simp add: toFixed5_eval)

lemma toFixed5_5: "toFixed5 5 = ''5.00000''"
  by (simp add: toFixed5_eval)

section \<open>What the rendering to five decimals separates\<close>

lemma digit_cases:
  "d < (10::nat) \<Longrightarrow>
   d = 0 \<or> d = 1 \<or> d = 2 \<or> d = 3 \<or> d = 4 \<or> d = 5 \<or> d = 6 \<or> d = 7 \<or> d = 8 \<or> d = 9"
  by arith

lemma digitChar_digit:
  assumes "d < 10"
  shows "digitChar d \<in> set ''0123456789''" and "digitValue (digitChar d) = d"
  using digit_cases [OF assms] by (auto simp: digitChar_def digitValue_def)

lemma natToString_digits: "set (natToString n) \<subseteq> set ''0123456789''"
proof (induction n rule: natToString.induct)
  case (1 n)
  show ?case
  proof (cases "n < 10")
    case True
    with digitChar_digit(1) [of n] show ?thesis
      by (simp add: natToString_small)
  next
    case False
    have "n mod 10 < 10" by simp
    from digitChar_digit(1) [OF this] "1.IH" [OF False] False show ?thesis
      by (simp add: natToString_large)
  qed
qed

lemma natToString_nonempty: "natToString n \<noteq> []"
  by (cases "n < 10") (simp_all add: natToString_small natToString_large)

lemma stringToNat_snoc: "stringToNat (s @ [c]) = 10 * stringToNat s + digitValue c"
  by (simp add: stringToNat_def)

lemma stringToNat_natToString: "stringToNat (natToString n) = n"
proof (induction n rule: natToString.induct)
  case (1 n)
  show ?case
  proof (cases "n < 10")
    case True
    with digitChar_digit(2) [of n] show ?thesis
      by (simp add: natToString_small stringToNat_def)
  next
    case False
    have "n mod 10 < 10" by simp
    from digitChar_digit(2) [OF this] "1.IH" [OF False] False show ?thesis
      by (simp add: natToString_large stringToNat_snoc)
  qed
qed

lemma stringToNat_zeros: "stringToNat (replicate k (CHR ''0'') @ s) = stringToNat s"
proof -
  have "foldl (\<lambda>a c. 10 * a + digitValue c) 0 (replicate k (CHR ''0'')) = 0"
    by (induction k) (simp_all add: digitValue_def)
  then show ?thesis
    by (simp add: stringToNat_def)
qed

lemma paddedDigits_props:
  shows "6 \<le> length (paddedDigits n)"
    and "set (paddedDigits n) \<subseteq> set ''0123456789''"
    and "stringToNat (paddedDigits n) = n"
proof -
  show "6 \<le> length (paddedDigits n)"
    by (simp add: paddedDigits_def Let_def)
  show "set (paddedDigits n) \<subseteq> set ''0123456789''"
    using natToString_digits [of n] by (auto simp: paddedDigits_def Let_def)
  show "stringToNat (paddedDigits n) = n"
    by (simp add: paddedDigits_def Let_def stringToNat_zeros stringToNat_natToString)
qed

lemma toFixed5_shape:
  "toFixed5 x =
     (if x < 0 then ''-'' else '''') @
     take (length (paddedDigits (roundedScaled x)) - 5) (paddedDigits (roundedScaled x)) @
     CHR ''.'' # drop (length (paddedDigits (roundedScaled x)) - 5) (paddedDigits (roundedScaled x))"
  by (simp add: toFixed5_def paddedDigits_def roundedScaled_def Let_def)

lemma split_at_separator:
  assumes "c \<notin> set xs" and "c \<notin> set xs'" and "xs @ c # ys = xs' @ c # ys'"
  shows "xs = xs' \<and> ys = ys'"
  using assms
proof (induction xs arbitrary: xs')
  case Nil
  then show ?case by (cases xs') auto
next
  case (Cons a xs)
  then show ?case by (cases xs') auto
qed

lemma toFixed5_eq_iff:
  "toFixed5 x = toFixed5 y \<longleftrightarrow> (x < 0 \<longleftrightarrow> y < 0) \<and> roundedScaled x = roundedScaled y"
proof
  assume "(x < 0 \<longleftrightarrow> y < 0) \<and> roundedScaled x = roundedScaled y"
  then show "toFixed5 x = toFixed5 y"
    by (simp add: toFixed5_shape)
next
  assume eq: "toFixed5 x = toFixed5 y"
  define px where "px = paddedDigits (roundedScaled x)"
  define py where "py = paddedDigits (roundedScaled y)"
  define ix where "ix = take (length px - 5) px"
  define iy where "iy = take (length py - 5) py"
  define fx where "fx = drop (length px - 5) px"
  define fy where "fy = drop (length py - 5) py"
  have shape_x: "toFixed5 x = (if x < 0 then ''-'' else '''') @ ix @ CHR ''.'' # fx"
    by (simp add: toFixed5_shape px_def ix_def fx_def)
  have shape_y: "toFixed5 y = (if y < 0 then ''-'' else '''') @ iy @ CHR ''.'' # fy"
    by (simp add: toFixed5_shape py_def iy_def fy_def)
  have digits_x: "set ix \<subseteq> set ''0123456789''"
    using paddedDigits_props(2) [of "roundedScaled x"] set_take_subset [of "length px - 5" px]
    unfolding ix_def px_def by blast
  have digits_y: "set iy \<subseteq> set ''0123456789''"
    using paddedDigits_props(2) [of "roundedScaled y"] set_take_subset [of "length py - 5" py]
    unfolding iy_def py_def by blast
  have nonempty_x: "ix \<noteq> []"
    using paddedDigits_props(1) [of "roundedScaled x"] unfolding ix_def px_def by auto
  have nonempty_y: "iy \<noteq> []"
    using paddedDigits_props(1) [of "roundedScaled y"] unfolding iy_def py_def by auto
  have head_x: "hd (ix @ CHR ''.'' # fx) \<in> set ''0123456789''"
    using digits_x nonempty_x by (cases ix) auto
  have head_y: "hd (iy @ CHR ''.'' # fy) \<in> set ''0123456789''"
    using digits_y nonempty_y by (cases iy) auto
  have dot_x: "CHR ''.'' \<notin> set ix"
    using digits_x by auto
  have dot_y: "CHR ''.'' \<notin> set iy"
    using digits_y by auto
  have sign: "x < 0 \<longleftrightarrow> y < 0"
  proof (rule ccontr)
    assume "\<not> (x < 0 \<longleftrightarrow> y < 0)"
    then consider "x < 0" "\<not> y < 0" | "\<not> x < 0" "y < 0"
      by blast
    then show False
    proof cases
      case 1
      with eq shape_x shape_y have "CHR ''-'' # ix @ CHR ''.'' # fx = iy @ CHR ''.'' # fy"
        by simp
      then have "hd (iy @ CHR ''.'' # fy) = CHR ''-''"
        by (metis list.sel(1))
      with head_y show False by simp
    next
      case 2
      with eq shape_x shape_y have "ix @ CHR ''.'' # fx = CHR ''-'' # iy @ CHR ''.'' # fy"
        by simp
      then have "hd (ix @ CHR ''.'' # fx) = CHR ''-''"
        by (metis list.sel(1))
      with head_x show False by simp
    qed
  qed
  with eq shape_x shape_y have "ix @ CHR ''.'' # fx = iy @ CHR ''.'' # fy"
    by auto
  from split_at_separator [OF dot_x dot_y this] have "ix @ fx = iy @ fy"
    by simp
  then have "px = py"
    by (simp add: ix_def fx_def iy_def fy_def)
  then have "stringToNat px = stringToNat py"
    by simp
  then have "roundedScaled x = roundedScaled y"
    by (simp add: px_def py_def paddedDigits_props(3))
  with sign show "(x < 0 \<longleftrightarrow> y < 0) \<and> roundedScaled x = roundedScaled y"
    by simp
qed

lemma toFixed5_no_comma: "CHR '','' \<notin> set (toFixed5 x)"
proof -
  have "CHR '','' \<notin> set (take n (paddedDigits m))"
    and "CHR '','' \<notin> set (drop n (paddedDigits m))" for n m
    using paddedDigits_props(2) [of m] set_take_subset [of n "paddedDigits m"]
      set_drop_subset [of n "paddedDigits m"] by auto
  then show ?thesis
    unfolding toFixed5_shape by simp
qed

lemma vertexKey_eq_iff:
  "vertexKey p = vertexKey q \<longleftrightarrow>
     toFixed5 (vx p) = toFixed5 (vx q) \<and> toFixed5 (vy p) = toFixed5 (vy q) \<and>
     toFixed5 (vz p) = toFixed5 (vz q)"
proof
  assume "vertexKey p = vertexKey q"
  then have outer: "toFixed5 (vx p) @ CHR '','' # (toFixed5 (vy p) @ CHR '','' # toFixed5 (vz p)) =
      toFixed5 (vx q) @ CHR '','' # (toFixed5 (vy q) @ CHR '','' # toFixed5 (vz q))"
    by (simp add: vertexKey_def)
  from split_at_separator [OF toFixed5_no_comma toFixed5_no_comma outer]
  have first: "toFixed5 (vx p) = toFixed5 (vx q)"
    and inner: "toFixed5 (vy p) @ CHR '','' # toFixed5 (vz p) =
      toFixed5 (vy q) @ CHR '','' # toFixed5 (vz q)"
    by simp_all
  from split_at_separator [OF toFixed5_no_comma toFixed5_no_comma inner] first
  show "toFixed5 (vx p) = toFixed5 (vx q) \<and> toFixed5 (vy p) = toFixed5 (vy q) \<and>
     toFixed5 (vz p) = toFixed5 (vz q)"
    by simp
next
  assume "toFixed5 (vx p) = toFixed5 (vx q) \<and> toFixed5 (vy p) = toFixed5 (vy q) \<and>
     toFixed5 (vz p) = toFixed5 (vz q)"
  then show "vertexKey p = vertexKey q"
    by (simp add: vertexKey_def)
qed

lemma roundedScaled_bounds:
  "of_nat (roundedScaled x) \<le> \<bar>x\<bar> * 100000 + 1 / 2"
  "\<bar>x\<bar> * 100000 + 1 / 2 < of_nat (roundedScaled x) + 1"
proof -
  have nonneg: "0 \<le> \<lfloor>\<bar>x\<bar> * 100000 + 1 / 2\<rfloor>"
    by simp
  then have "(of_nat (roundedScaled x) :: rat) = of_int \<lfloor>\<bar>x\<bar> * 100000 + 1 / 2\<rfloor>"
    unfolding roundedScaled_def by (metis of_int_of_nat_eq int_nat_eq)
  then show "of_nat (roundedScaled x) \<le> \<bar>x\<bar> * 100000 + 1 / 2"
    "\<bar>x\<bar> * 100000 + 1 / 2 < of_nat (roundedScaled x) + 1"
    by simp_all linarith
qed

lemma same_rounding_close:
  fixes a b n :: rat
  assumes "n \<le> a + 1 / 2" and "a + 1 / 2 < n + 1" and "n \<le> b + 1 / 2" and "b + 1 / 2 < n + 1"
  shows "a - b < 1" and "b - a < 1"
  using assms by linarith+

lemma toFixed5_close:
  assumes "toFixed5 x = toFixed5 y"
  shows "\<bar>x - y\<bar> < 1 / 100000"
proof -
  from assms have sign: "x < 0 \<longleftrightarrow> y < 0" and same: "roundedScaled x = roundedScaled y"
    by (simp_all add: toFixed5_eq_iff)
  from same_rounding_close [OF roundedScaled_bounds [of x] roundedScaled_bounds [of y, folded same]]
  have near: "\<bar>x\<bar> - \<bar>y\<bar> < 1 / 100000" "\<bar>y\<bar> - \<bar>x\<bar> < 1 / 100000"
    by simp_all
  show ?thesis
  proof (cases "x < 0")
    case True
    with sign have "y < 0" by simp
    with True have "\<bar>x\<bar> = - x" "\<bar>y\<bar> = - y" by simp_all
    with near have "y - x < 1 / 100000" "x - y < 1 / 100000" by simp_all
    then show ?thesis unfolding abs_less_iff by (intro conjI; linarith)
  next
    case False
    with sign have "\<not> y < 0" by simp
    with False have "\<bar>x\<bar> = x" "\<bar>y\<bar> = y" by simp_all
    with near have "x - y < 1 / 100000" "y - x < 1 / 100000" by simp_all
    then show ?thesis unfolding abs_less_iff by (intro conjI; linarith)
  qed
qed


lemma toFixed5_sign: "x < 0 \<Longrightarrow> 0 \<le> y \<Longrightarrow> toFixed5 x \<noteq> toFixed5 y"
  by (simp add: toFixed5_eq_iff)

lemma toFixed5_eq_zero_iff:
  assumes "0 \<le> s"
  shows "toFixed5 s = toFixed5 0 \<longleftrightarrow> s < 1 / 200000"
proof -
  have "roundedScaled 0 = 0"
    by (simp add: roundedScaled_def)
  moreover have "roundedScaled s = 0 \<longleftrightarrow> s < 1 / 200000"
  proof
    assume "roundedScaled s = 0"
    with roundedScaled_bounds(2) [of s] assms show "s < 1 / 200000"
      by simp
  next
    assume "s < 1 / 200000"
    with assms have "\<bar>s\<bar> * 100000 + 1 / 2 < 1"
      by simp
    then have "\<lfloor>\<bar>s\<bar> * 100000 + 1 / 2\<rfloor> < 1"
      by (simp add: floor_less_iff)
    then show "roundedScaled s = 0"
      by (simp add: roundedScaled_def)
  qed
  ultimately show ?thesis
    using assms by (simp add: toFixed5_eq_iff)
qed

section \<open>Cells welded into an empty state\<close>

lemma addUniqueVertices_fresh:
  assumes "distinct (map vertexKey vs)"
    and "\<forall>v \<in> set vs. vertexMap st (vertexKey v) = None"
    and "addUniqueVertices vs st = (js, st')"
  shows "exportVertices st' = exportVertices st @ vs"
  using assms
proof (induction vs arbitrary: st js st')
  case Nil
  then show ?case by simp
next
  case (Cons v vs)
  define st1 where "st1 = st\<lparr>bufferVertices := bufferVertices st @ [vx v, vy v, vz v],
             exportVertices := exportVertices st @ [v],
             vertexMap := (vertexMap st)(vertexKey v \<mapsto> length (exportVertices st))\<rparr>"
  from Cons.prems(2) have "vertexMap st (vertexKey v) = None" by simp
  then have first: "addUniqueVertex v st = (length (exportVertices st), st1)"
    by (simp add: addUniqueVertex_def Let_def st1_def)
  obtain ks st2 where rest: "addUniqueVertices vs st1 = (ks, st2)"
    by (cases "addUniqueVertices vs st1")
  with first Cons.prems(3) have st': "st' = st2" by simp
  from Cons.prems(1) have "distinct (map vertexKey vs)" by simp
  moreover have "\<forall>w \<in> set vs. vertexMap st1 (vertexKey w) = None"
  proof
    fix w assume w: "w \<in> set vs"
    then have "vertexKey w \<in> set (map vertexKey vs)" by simp
    moreover from Cons.prems(1) have "vertexKey v \<notin> set (map vertexKey vs)" by simp
    ultimately have "vertexKey w \<noteq> vertexKey v" by metis
    with w Cons.prems(2) show "vertexMap st1 (vertexKey w) = None"
      by (simp add: st1_def)
  qed
  ultimately have "exportVertices st2 = exportVertices st1 @ vs"
    using rest by (rule Cons.IH)
  then show ?case
    by (simp add: st' st1_def)
qed

lemma emitCell_fresh:
  assumes "distinct (map vertexKey vs)"
  shows "exportVertices (emitCell vs table emptyState) = vs"
proof -
  obtain idx st1 where weld: "addUniqueVertices vs emptyState = (idx, st1)"
    by (cases "addUniqueVertices vs emptyState")
  have "\<forall>v \<in> set vs. vertexMap emptyState (vertexKey v) = None"
    by (simp add: emptyState_def)
  from addUniqueVertices_fresh [OF assms this weld] have "exportVertices st1 = vs"
    by (simp add: emptyState_def)
  with weld show ?thesis
    by (simp add: emitCell_def pushFaces_effect)
qed

lemma toFixed5_neg_pos: "0 < h \<Longrightarrow> toFixed5 (- h) \<noteq> toFixed5 h" "0 < h \<Longrightarrow> toFixed5 h \<noteq> toFixed5 (- h)"
  using toFixed5_sign [of "- h" h] by auto

lemma tetrahedron_keys_distinct:
  assumes "0 < sz"
  shows "distinct (map vertexKey
    [newVector3 sz sz sz, newVector3 sz (- sz) (- sz), newVector3 (- sz) sz (- sz),
     newVector3 (- sz) (- sz) sz])"
  using toFixed5_neg_pos [OF assms]
  by (simp add: vertexKey_eq_iff newVector3_def)

lemma cube_keys_distinct_origin:
  assumes "0 < sz"
  shows "distinct (map vertexKey (cubeVertices (newVector3 0 0 0) sz))"
proof -
  from assms have "0 < sz / 2" by simp
  from toFixed5_neg_pos [OF this] show ?thesis
    by (simp add: vertexKey_eq_iff newVector3_def cubeVertices_def Let_def)
qed

lemma octahedron_keys_distinct_origin:
  assumes "1 / 200000 \<le> sz"
  shows "distinct (map vertexKey (octahedronVertices (newVector3 0 0 0) sz))"
proof -
  from assms have pos: "0 < sz" by simp
  then have "toFixed5 sz \<noteq> toFixed5 0"
    using toFixed5_eq_zero_iff [of sz] assms by simp
  moreover have "toFixed5 (- sz) \<noteq> toFixed5 0"
    using toFixed5_sign [of "- sz" 0] pos by simp
  ultimately show ?thesis
    using toFixed5_neg_pos [OF pos]
    by (simp add: vertexKey_eq_iff newVector3_def octahedronVertices_def eq_commute [of "toFixed5 0"])
qed

lemma tetrahedron_cell_table: "wellFormedTable (length [p1, p2, p3, p4]) tetrahedronTable"
proof -
  have "length [p1, p2, p3, p4] = 4" by simp
  then show ?thesis using wellFormedTable_tetrahedron by (simp only:)
qed

lemma cube_cell_table: "wellFormedTable (length (cubeVertices center sideLength)) cubeTable"
  using wellFormedTable_cube by (simp only: length_cubeVertices)

lemma octahedron_cell_table: "wellFormedTable (length (octahedronVertices center scale)) octahedronTable"
  using wellFormedTable_octahedron by (simp only: length_octahedronVertices)

lemma length_tables:
  "length tetrahedronTable = 4" "length cubeTable = 12" "length octahedronTable = 8"
  by (simp_all add: tetrahedronTable_def cubeTable_def octahedronTable_def)

section \<open>The sponge at level 1 and size 3\<close>

lemma addUniqueVertices_points:
  "addUniqueVertices vs st = (js, st') \<Longrightarrow>
   set (exportVertices st') \<subseteq> set (exportVertices st) \<union> set vs"
proof (induction vs arbitrary: st js st')
  case Nil
  then show ?case by simp
next
  case (Cons v vs)
  obtain i st1 where first: "addUniqueVertex v st = (i, st1)"
    by (cases "addUniqueVertex v st")
  obtain ks st2 where rest: "addUniqueVertices vs st1 = (ks, st2)"
    by (cases "addUniqueVertices vs st1")
  from first have "set (exportVertices st1) \<subseteq> set (exportVertices st) \<union> {v}"
    by (cases rule: addUniqueVertex_cases [of st v]) auto
  moreover from Cons.IH [OF rest]
  have "set (exportVertices st2) \<subseteq> set (exportVertices st1) \<union> set vs" .
  moreover from Cons.prems first rest have "st' = st2" by simp
  ultimately show ?case by auto
qed

lemma emitCell_points:
  "set (exportVertices (emitCell vs table st)) \<subseteq> set (exportVertices st) \<union> set vs"
proof -
  obtain idx st1 where weld: "addUniqueVertices vs st = (idx, st1)"
    by (cases "addUniqueVertices vs st")
  from addUniqueVertices_points [OF weld] weld show ?thesis
    by (simp add: emitCell_def pushFaces_effect)
qed

lemma forEachM_cells:
  assumes body: "\<And>a st. a \<in> set as \<Longrightarrow> consistent st \<Longrightarrow> set (exportVertices st) \<subseteq> G \<Longrightarrow>
      \<exists>st'. body a st = Some st' \<and> consistent st' \<and>
        length (exportFaces st') = length (exportFaces st) + m \<and> set (exportVertices st') \<subseteq> G"
    and "consistent st" and "set (exportVertices st) \<subseteq> G"
  shows "\<exists>st'. forEachM body as st = Some st' \<and> consistent st' \<and>
    length (exportFaces st') = length (exportFaces st) + m * length as \<and>
    set (exportVertices st') \<subseteq> G"
  using assms
proof (induction as arbitrary: st)
  case Nil
  then show ?case by simp
next
  case (Cons a as)
  from Cons.prems(1) [of a st] Cons.prems(2,3)
  obtain st1 where st1: "body a st = Some st1" "consistent st1"
    "length (exportFaces st1) = length (exportFaces st) + m" "set (exportVertices st1) \<subseteq> G"
    by auto
  from Cons.IH [OF _ st1(2,4)] Cons.prems(1)
  obtain st2 where st2: "forEachM body as st1 = Some st2" "consistent st2"
    "length (exportFaces st2) = length (exportFaces st1) + m * length as"
    "set (exportVertices st2) \<subseteq> G"
    by auto
  with st1 show ?case by simp
qed

lemma subCubeIndices_eq:
  "subCubeIndices =
    [(- 1, - 1, - 1), (- 1, - 1, 0), (- 1, - 1, 1), (- 1, 0, - 1), (- 1, 0, 1),
     (- 1, 1, - 1), (- 1, 1, 0), (- 1, 1, 1), (0, - 1, - 1), (0, - 1, 1),
     (0, 1, - 1), (0, 1, 1), (1, - 1, - 1), (1, - 1, 0), (1, - 1, 1),
     (1, 0, - 1), (1, 0, 1), (1, 1, - 1), (1, 1, 0), (1, 1, 1)]"
  by (simp add: subCubeIndices_def zeroCount_def)

lemma subCubeIndices_range:
  assumes "(i, j, k) \<in> set subCubeIndices"
  shows "i \<in> {- 1, 0, 1} \<and> j \<in> {- 1, 0, 1} \<and> k \<in> {- 1, 0, 1}"
  using assms unfolding subCubeIndices_eq by auto

lemma unit_cell_on_grid:
  assumes "i \<in> {- 1, 0, 1}" and "j \<in> {- 1, 0, 1}" and "k \<in> {- 1, 0, 1::int}"
  shows "set (cubeVertices (newVector3 (of_int i) (of_int j) (of_int k)) 1) \<subseteq> gridPoints"
proof -
  have "(of_int n :: rat) - 1 / 2 \<in> gridCoordinates \<and> (of_int n :: rat) + 1 / 2 \<in> gridCoordinates"
    if "n \<in> {- 1, 0, 1}" for n :: int
    using that by (auto simp: gridCoordinates_def)
  from this [OF assms(1)] this [OF assms(2)] this [OF assms(3)] show ?thesis
    by (simp add: cubeVertices_def Let_def newVector3_def gridPoints_def)
qed

lemma card_gridPoints: "finite gridPoints \<and> card gridPoints \<le> 64"
proof -
  have "gridPoints \<subseteq> (\<lambda>(a, b, c). newVector3 a b c) `
      (gridCoordinates \<times> gridCoordinates \<times> gridCoordinates)"
  proof
    fix p assume "p \<in> gridPoints"
    then have "(vx p, vy p, vz p) \<in> gridCoordinates \<times> gridCoordinates \<times> gridCoordinates"
      by (simp add: gridPoints_def)
    moreover have "p = (\<lambda>(a, b, c). newVector3 a b c) (vx p, vy p, vz p)"
      by (simp add: newVector3_def)
    ultimately show "p \<in> (\<lambda>(a, b, c). newVector3 a b c) `
      (gridCoordinates \<times> gridCoordinates \<times> gridCoordinates)"
      by (rule rev_image_eqI)
  qed
  moreover have fin: "finite (gridCoordinates \<times> gridCoordinates \<times> gridCoordinates)"
    by (simp add: gridCoordinates_def)
  moreover have "card (gridCoordinates \<times> gridCoordinates \<times> gridCoordinates) \<le> 64"
  proof -
    have "card gridCoordinates \<le> 4"
      unfolding gridCoordinates_def by (simp add: card_insert_if)
    then have "card gridCoordinates * (card gridCoordinates * card gridCoordinates) \<le> 4 * (4 * 4)"
      by (intro mult_le_mono)
    then show ?thesis
      by (simp add: card_cartesian_product)
  qed
  ultimately show ?thesis
    by (meson card_image_le card_mono finite_imageI finite_subset le_trans)
qed

lemma sponge_level1_cells:
  "subdivideCube (newVector3 0 0 0) 3 1 st =
     forEachM (\<lambda>(i, j, k). subdivideCube (newVector3 (of_int i) (of_int j) (of_int k)) 1 0)
       subCubeIndices st"
  by (subst subdivideCube_step) (simp_all add: Let_def add_def newVector3_def case_prod_unfold)

lemma sponge_level1_state:
  "\<exists>st. subdivideCube (newVector3 0 0 0) 3 1 emptyState = Some st \<and> consistent st \<and>
     length (exportFaces st) = 240 \<and> set (exportVertices st) \<subseteq> gridPoints"
proof -
  have cell: "\<exists>st'. (\<lambda>(i, j, k). subdivideCube (newVector3 (of_int i) (of_int j) (of_int k)) 1 0) a st
        = Some st' \<and> consistent st' \<and>
      length (exportFaces st') = length (exportFaces st) + 12 \<and>
      set (exportVertices st') \<subseteq> gridPoints"
    if "a \<in> set subCubeIndices" "consistent st" "set (exportVertices st) \<subseteq> gridPoints"
    for a st
  proof -
    obtain i j k where a: "a = (i, j, k)" by (cases a)
    from that(1) have "set (cubeVertices (newVector3 (of_int i) (of_int j) (of_int k)) 1)
        \<subseteq> gridPoints"
      unfolding a using subCubeIndices_range unit_cell_on_grid by blast
    with emitCell_points [of "cubeVertices (newVector3 (of_int i) (of_int j) (of_int k)) 1"
        cubeTable st] that(3)
    have "set (exportVertices (emitCell
        (cubeVertices (newVector3 (of_int i) (of_int j) (of_int k)) 1) cubeTable st)) \<subseteq> gridPoints"
      by blast
    with emitCell_consistent(1,2) [OF that(2) cube_cell_table] show ?thesis
      by (simp add: a subdivideCube_0 cubeLeaf_emitCell length_tables)
  qed
  have "length subCubeIndices = 20"
    by (simp add: subCubeIndices_eq)
  with forEachM_cells [of subCubeIndices gridPoints _ 12, OF cell consistent_emptyState]
  show ?thesis
    unfolding sponge_level1_cells by (simp add: emptyState_def)
qed

lemma subCubeIndices_sub:
  "set subCubeIndices \<subseteq>
     {(i, j, k). i \<in> {- 1, 0, 1} \<and> j \<in> {- 1, 0, 1} \<and> k \<in> {- 1, 0, 1} \<and>
        \<not> (i = 0 \<and> j = 0) \<and> \<not> (i = 0 \<and> k = 0) \<and> \<not> (j = 0 \<and> k = 0)}"
  by (simp add: subCubeIndices_eq)

lemma subCubeIndices_sup:
  assumes "i \<in> {- 1, 0, 1}" "j \<in> {- 1, 0, 1}" "k \<in> {- 1, 0, 1}"
    and "\<not> (i = 0 \<and> j = 0)" "\<not> (i = 0 \<and> k = 0)" "\<not> (j = 0 \<and> k = 0)"
  shows "(i, j, k) \<in> set subCubeIndices"
  using assms unfolding subCubeIndices_eq by (elim insertE emptyE; simp)

lemma emitCell_keys:
  assumes "consistent st"
  shows "set (exportVertices st) \<subseteq> set (exportVertices (emitCell vs table st))"
    and "vertexKey ` set vs \<subseteq> vertexKey ` set (exportVertices (emitCell vs table st))"
proof -
  obtain idx st1 where weld: "addUniqueVertices vs st = (idx, st1)"
    by (cases "addUniqueVertices vs st")
  then have cell: "exportVertices (emitCell vs table st) = exportVertices st1"
    by (simp add: emitCell_def pushFaces_effect)
  note w = addUniqueVertices_consistent [OF assms weld]
  from w show "set (exportVertices st) \<subseteq> set (exportVertices (emitCell vs table st))"
    unfolding cell by auto
  show "vertexKey ` set vs \<subseteq> vertexKey ` set (exportVertices (emitCell vs table st))"
  proof
    fix k assume "k \<in> vertexKey ` set vs"
    then obtain n where n: "n < length vs" "k = vertexKey (vs ! n)"
      by (auto simp: in_set_conv_nth)
    with w have "idx ! n < length (exportVertices st1)"
      "vertexKey (exportVertices st1 ! (idx ! n)) = k"
      by simp_all
    then show "k \<in> vertexKey ` set (exportVertices (emitCell vs table st))"
      unfolding cell by (metis imageI nth_mem)
  qed
qed

lemma forEachM_keys:
  assumes body: "\<And>a st. a \<in> set as \<Longrightarrow> consistent st \<Longrightarrow>
      \<exists>st'. body a st = Some st' \<and> consistent st' \<and>
        set (exportVertices st) \<subseteq> set (exportVertices st') \<and>
        vertexKey ` set (cell a) \<subseteq> vertexKey ` set (exportVertices st')"
    and "consistent st"
  shows "\<exists>st'. forEachM body as st = Some st' \<and> consistent st' \<and>
    set (exportVertices st) \<subseteq> set (exportVertices st') \<and>
    (\<forall>a \<in> set as. vertexKey ` set (cell a) \<subseteq> vertexKey ` set (exportVertices st'))"
  using assms
proof (induction as arbitrary: st)
  case Nil
  then show ?case by simp
next
  case (Cons a as)
  from Cons.prems(1) [of a st] Cons.prems(2)
  obtain st1 where st1: "body a st = Some st1" "consistent st1"
    "set (exportVertices st) \<subseteq> set (exportVertices st1)"
    "vertexKey ` set (cell a) \<subseteq> vertexKey ` set (exportVertices st1)"
    by auto
  from Cons.IH [OF _ st1(2)] Cons.prems(1)
  obtain st2 where st2: "forEachM body as st1 = Some st2" "consistent st2"
    "set (exportVertices st1) \<subseteq> set (exportVertices st2)"
    "\<forall>b \<in> set as. vertexKey ` set (cell b) \<subseteq> vertexKey ` set (exportVertices st2)"
    by auto
  from st1(4) st2(3) have "vertexKey ` set (cell a) \<subseteq> vertexKey ` set (exportVertices st2)"
    by blast
  with st1 st2 show ?case by auto
qed

lemma grid_coordinate_corner:
  assumes "a \<in> gridCoordinates"
  obtains i :: int where "i = - 1 \<or> i = 1" and "a = of_int i - 1 / 2 \<or> a = of_int i + 1 / 2"
proof -
  from assms consider "a = - (3 / 2)" | "a = - (1 / 2)" | "a = 1 / 2" | "a = 3 / 2"
    by (auto simp: gridCoordinates_def)
  then show ?thesis
  proof cases
    case 1
    then have "a = of_int (- 1) - 1 / 2" by simp
    then show ?thesis using that [of "- 1"] by blast
  next
    case 2
    then have "a = of_int (- 1) + 1 / 2" by simp
    then show ?thesis using that [of "- 1"] by blast
  next
    case 3
    then have "a = of_int 1 - 1 / 2" by simp
    then show ?thesis using that [of 1] by blast
  next
    case 4
    then have "a = of_int 1 + 1 / 2" by simp
    then show ?thesis using that [of 1] by blast
  qed
qed

lemma grid_point_is_corner:
  assumes "p \<in> gridPoints"
  shows "\<exists>(i, j, k) \<in> set subCubeIndices.
    p \<in> set (cubeVertices (newVector3 (of_int i) (of_int j) (of_int k)) 1)"
proof -
  from assms have "vx p \<in> gridCoordinates" "vy p \<in> gridCoordinates" "vz p \<in> gridCoordinates"
    by (simp_all add: gridPoints_def)
  then obtain i j k :: int
    where i: "i = - 1 \<or> i = 1" "vx p = of_int i - 1 / 2 \<or> vx p = of_int i + 1 / 2"
      and j: "j = - 1 \<or> j = 1" "vy p = of_int j - 1 / 2 \<or> vy p = of_int j + 1 / 2"
      and k: "k = - 1 \<or> k = 1" "vz p = of_int k - 1 / 2 \<or> vz p = of_int k + 1 / 2"
    by (metis grid_coordinate_corner)
  from i(1) j(1) k(1) have "(i, j, k) \<in> set subCubeIndices"
    by (intro subCubeIndices_sup) auto
  moreover have "p = \<lparr>vx = vx p, vy = vy p, vz = vz p\<rparr>"
    by simp
  with i(2) j(2) k(2)
  have "p \<in> set (cubeVertices (newVector3 (of_int i) (of_int j) (of_int k)) 1)"
    unfolding cubeVertices_def Let_def newVector3_def
    by (elim disjE) (simp_all)
  ultimately show ?thesis by blast
qed

lemma toFixed5_inj_grid:
  assumes "a \<in> gridCoordinates" and "b \<in> gridCoordinates" and "toFixed5 a = toFixed5 b"
  shows "a = b"
proof -
  from toFixed5_close [OF assms(3)] have "a - b < 1 / 100000" "b - a < 1 / 100000"
    unfolding abs_less_iff by simp_all
  with assms(1,2) show ?thesis
    unfolding gridCoordinates_def by auto
qed

lemma vertexKey_inj_grid: "inj_on vertexKey gridPoints"
proof (rule inj_onI)
  fix p q assume "p \<in> gridPoints" "q \<in> gridPoints" "vertexKey p = vertexKey q"
  then have "vx p = vx q" "vy p = vy q" "vz p = vz q"
    by (simp_all add: gridPoints_def vertexKey_eq_iff toFixed5_inj_grid)
  then show "p = q" by simp
qed

lemma card_gridPoints_eq: "card gridPoints = 64"
proof -
  have eq: "gridPoints = (\<lambda>(a, b, c). newVector3 a b c) `
      (gridCoordinates \<times> gridCoordinates \<times> gridCoordinates)"
  proof (rule equalityI; rule subsetI)
    fix p assume "p \<in> gridPoints"
    then have "(vx p, vy p, vz p) \<in> gridCoordinates \<times> gridCoordinates \<times> gridCoordinates"
      by (simp add: gridPoints_def)
    moreover have "p = (\<lambda>(a, b, c). newVector3 a b c) (vx p, vy p, vz p)"
      by (simp add: newVector3_def)
    ultimately show "p \<in> (\<lambda>(a, b, c). newVector3 a b c) `
      (gridCoordinates \<times> gridCoordinates \<times> gridCoordinates)"
      by (rule rev_image_eqI)
  next
    fix p assume "p \<in> (\<lambda>(a, b, c). newVector3 a b c) `
      (gridCoordinates \<times> gridCoordinates \<times> gridCoordinates)"
    then show "p \<in> gridPoints"
      by (auto simp: gridPoints_def newVector3_def)
  qed
  have inj: "inj_on (\<lambda>(a, b, c). newVector3 a b c)
      (gridCoordinates \<times> gridCoordinates \<times> gridCoordinates)"
    by (rule inj_onI) (auto simp: newVector3_def)
  have "card gridCoordinates = 4"
    by (simp add: gridCoordinates_def)
  then have "card (gridCoordinates \<times> gridCoordinates \<times> gridCoordinates) = 64"
    by (simp add: card_cartesian_product)
  with card_image [OF inj] show ?thesis
    unfolding eq by simp
qed

lemma sponge_level1_points:
  "\<exists>st. subdivideCube (newVector3 0 0 0) 3 1 emptyState = Some st \<and>
     length (exportFaces st) = 240 \<and> length (exportVertices st) = 64"
proof -
  from sponge_level1_state obtain st
    where st: "subdivideCube (newVector3 0 0 0) 3 1 emptyState = Some st" "consistent st"
      "length (exportFaces st) = 240" "set (exportVertices st) \<subseteq> gridPoints"
    by blast
  have cell: "\<exists>st'. (\<lambda>(i, j, k). subdivideCube (newVector3 (of_int i) (of_int j) (of_int k)) 1 0) a s
        = Some st' \<and> consistent st' \<and>
      set (exportVertices s) \<subseteq> set (exportVertices st') \<and>
      vertexKey ` set ((\<lambda>(i, j, k). cubeVertices (newVector3 (of_int i) (of_int j) (of_int k)) 1) a)
        \<subseteq> vertexKey ` set (exportVertices st')"
    if "consistent s" for a s
  proof -
    obtain i j k where a: "a = (i, j, k)" by (cases a)
    from emitCell_keys [OF that] emitCell_consistent(1) [OF that cube_cell_table]
    show ?thesis
      by (simp add: a subdivideCube_0 cubeLeaf_emitCell)
  qed
  from forEachM_keys [of subCubeIndices _
      "\<lambda>(i, j, k). cubeVertices (newVector3 (of_int i) (of_int j) (of_int k)) 1",
      OF cell consistent_emptyState] st(1)
  have covered: "\<forall>a \<in> set subCubeIndices.
      vertexKey ` set ((\<lambda>(i, j, k). cubeVertices (newVector3 (of_int i) (of_int j) (of_int k)) 1) a)
        \<subseteq> vertexKey ` set (exportVertices st)"
    unfolding sponge_level1_cells by auto
  have "vertexKey ` gridPoints \<subseteq> vertexKey ` set (exportVertices st)"
  proof
    fix key assume "key \<in> vertexKey ` gridPoints"
    then obtain p where p: "p \<in> gridPoints" "key = vertexKey p" by blast
    from grid_point_is_corner [OF p(1)] obtain a
      where a: "a \<in> set subCubeIndices"
        "p \<in> set ((\<lambda>(i, j, k). cubeVertices (newVector3 (of_int i) (of_int j) (of_int k)) 1) a)"
      by auto
    with covered p(2) show "key \<in> vertexKey ` set (exportVertices st)"
      by blast
  qed
  then have "card (vertexKey ` gridPoints) \<le> card (vertexKey ` set (exportVertices st))"
    by (intro card_mono) simp_all
  also have "\<dots> \<le> length (exportVertices st)"
    by (metis card_length length_map set_map)
  finally have lower: "64 \<le> length (exportVertices st)"
    by (simp add: card_image [OF vertexKey_inj_grid] card_gridPoints_eq)
  from consistent_distinct_keys [OF st(2)] have "distinct (exportVertices st)"
    by (rule distinct_map [THEN iffD1, THEN conjunct1])
  then have "length (exportVertices st) = card (set (exportVertices st))"
    by (simp add: distinct_card)
  also from st(4) card_gridPoints have "\<dots> \<le> 64"
    by (meson card_mono le_trans)
  finally have "length (exportVertices st) \<le> 64" .
  with lower st(1,3) show ?thesis by simp
qed

section \<open>Sizes below the resolution of the keys\<close>

lemma toFixed5_tiny: "toFixed5 (1 / 1048576) = ''0.00000''"
  by (simp add: toFixed5_eval)

lemma toFixed5_mtiny: "toFixed5 (- (1 / 1048576)) = ''-0.00000''"
  by (simp add: toFixed5_eval)

lemma tiny_octahedron:
  "generateSierpinskiOctahedron 0 (1 / 1048576) = Some
    \<lparr>bufferVertices =
       [0, 1 / 1048576, 0, 0, - (1 / 1048576), 0, - (1 / 1048576), 0, 0, 0, 0, - (1 / 1048576)],
     bufferIndices = [0, 0, 0, 0, 0, 3, 0, 3, 2, 0, 2, 0, 1, 0, 0, 1, 3, 0, 1, 2, 3, 1, 0, 2],
     exportVertices =
       [newVector3 0 (1 / 1048576) 0, newVector3 0 (- (1 / 1048576)) 0,
        newVector3 (- (1 / 1048576)) 0 0, newVector3 0 0 (- (1 / 1048576))],
     exportFaces =
       [\<lparr>v1 = 0, v2 = 0, v3 = 0\<rparr>, \<lparr>v1 = 0, v2 = 0, v3 = 3\<rparr>,
        \<lparr>v1 = 0, v2 = 3, v3 = 2\<rparr>, \<lparr>v1 = 0, v2 = 2, v3 = 0\<rparr>,
        \<lparr>v1 = 1, v2 = 0, v3 = 0\<rparr>, \<lparr>v1 = 1, v2 = 3, v3 = 0\<rparr>,
        \<lparr>v1 = 1, v2 = 2, v3 = 3\<rparr>, \<lparr>v1 = 1, v2 = 0, v3 = 2\<rparr>]\<rparr>"
  by (simp add: generateSierpinskiOctahedron_def subdivideOctahedron_0 octahedronLeaf_def
      emptyState_def toOutput_def addUniqueVertex_def vertexKey_def newVector3_def
      toFixed5_0 toFixed5_tiny toFixed5_mtiny Let_def)

lemma tiny_tetrahedron:
  "generateSierpinskiTetrahedron 0 (1 / 1048576) = Some
    \<lparr>bufferVertices =
       [1 / 1048576, 1 / 1048576, 1 / 1048576,
        1 / 1048576, - (1 / 1048576), - (1 / 1048576),
        - (1 / 1048576), 1 / 1048576, - (1 / 1048576),
        - (1 / 1048576), - (1 / 1048576), 1 / 1048576],
     bufferIndices = [0, 2, 1, 0, 1, 3, 0, 3, 2, 1, 2, 3],
     exportVertices =
       [newVector3 (1 / 1048576) (1 / 1048576) (1 / 1048576),
        newVector3 (1 / 1048576) (- (1 / 1048576)) (- (1 / 1048576)),
        newVector3 (- (1 / 1048576)) (1 / 1048576) (- (1 / 1048576)),
        newVector3 (- (1 / 1048576)) (- (1 / 1048576)) (1 / 1048576)],
     exportFaces =
       [\<lparr>v1 = 0, v2 = 2, v3 = 1\<rparr>, \<lparr>v1 = 0, v2 = 1, v3 = 3\<rparr>,
        \<lparr>v1 = 0, v2 = 3, v3 = 2\<rparr>, \<lparr>v1 = 1, v2 = 2, v3 = 3\<rparr>]\<rparr>"
  by (simp add: generateSierpinskiTetrahedron_def subdivideTetrahedron_0 tetrahedronLeaf_def
      pushFace_def emptyState_def toOutput_def addUniqueVertex_def vertexKey_def newVector3_def
      toFixed5_tiny toFixed5_mtiny Let_def)

lemma toFixed5_boundary: "toFixed5 (1 / 131072) = ''0.00001''"
  by (simp add: toFixed5_eval)

lemma toFixed5_mboundary: "toFixed5 (- (1 / 131072)) = ''-0.00001''"
  by (simp add: toFixed5_eval)

text \<open>
  Two corners on the two sides of a rounding boundary: at size \<open>2^-17\<close> the octahedron
  keeps \<open>(0, s, 0)\<close> and \<open>(s, 0, 0)\<close>, rendered \<open>0.00001\<close> and \<open>0.00000\<close> where they
  differ, and less than \<open>0.00001\<close> apart.
\<close>

lemma boundary_octahedron:
  "map_option exportVertices (generateSierpinskiOctahedron 0 (1 / 131072)) =
     Some [newVector3 0 (1 / 131072) 0, newVector3 0 (- (1 / 131072)) 0,
           newVector3 (1 / 131072) 0 0, newVector3 (- (1 / 131072)) 0 0,
           newVector3 0 0 (1 / 131072), newVector3 0 0 (- (1 / 131072))] \<and>
   withinWeldTolerance (newVector3 0 (1 / 131072) 0) (newVector3 (1 / 131072) 0 0)"
  by (simp add: generateSierpinskiOctahedron_def subdivideOctahedron_0 octahedronLeaf_def
      emptyState_def toOutput_def addUniqueVertex_def vertexKey_def newVector3_def
      toFixed5_0 toFixed5_boundary toFixed5_mboundary Let_def withinWeldTolerance_def)

section \<open>Faces with three different corners\<close>





section \<open>The level-0 cells of a call\<close>

lemma emitCells_Nil: "emitCells table [] st = st"
  by (simp add: emitCells_def)

lemma emitCells_Cons: "emitCells table (cell # cells) st = emitCells table cells (emitCell cell table st)"
  by (simp add: emitCells_def)

lemma emitCells_append:
  "emitCells table (xs @ ys) st = emitCells table ys (emitCells table xs st)"
  by (simp add: emitCells_def)

lemma emitCells_concat:
  "emitCells table (concat (map h as)) st = foldl (\<lambda>s a. emitCells table (h a) s) st as"
  by (induction as arbitrary: st) (simp_all add: emitCells_Nil emitCells_append)

lemma forEachM_total:
  assumes "\<And>a st. a \<in> set as \<Longrightarrow> body a st = Some (g a st)"
  shows "forEachM body as st = Some (foldl (\<lambda>s a. g a s) st as)"
  using assms by (induction as arbitrary: st) simp_all

lemma subdivideTetrahedron_cells:
  "subdivideTetrahedron p1 p2 p3 p4 (int n) st =
     Some (emitCells tetrahedronTable (tetrahedronCells p1 p2 p3 p4 n) st)"
proof (induction n arbitrary: p1 p2 p3 p4 st)
  case 0
  show ?case
    by (simp add: subdivideTetrahedron_0 tetrahedronLeaf_emitCell emitCells_Cons emitCells_Nil)
next
  case (Suc n)
  show ?case
    by (subst subdivideTetrahedron_step) (simp_all add: Suc.IH Let_def emitCells_append)
qed

lemma subdivideCube_cells:
  "subdivideCube center sideLength (int n) st =
     Some (emitCells cubeTable (map (\<lambda>(c, s). cubeVertices c s) (cubeCells center sideLength n)) st)"
proof (induction n arbitrary: center sideLength st)
  case 0
  show ?case
    by (simp add: subdivideCube_0 cubeLeaf_emitCell emitCells_Cons emitCells_Nil)
next
  case (Suc n)
  have step: "subdivideCube center sideLength (int (Suc n)) st =
      forEachM
        (\<lambda>(i, j, k) st'.
           subdivideCube
             (add center (newVector3 (of_int i * (sideLength / 3)) (of_int j * (sideLength / 3))
                (of_int k * (sideLength / 3))))
             (sideLength / 3) (int n) st')
        subCubeIndices st"
    by (subst subdivideCube_step) (simp_all add: Let_def)
  have "forEachM
        (\<lambda>(i, j, k) st'.
           subdivideCube
             (add center (newVector3 (of_int i * (sideLength / 3)) (of_int j * (sideLength / 3))
                (of_int k * (sideLength / 3))))
             (sideLength / 3) (int n) st')
        subCubeIndices st =
      Some (foldl (\<lambda>s a. emitCells cubeTable (map (\<lambda>(c, s). cubeVertices c s)
         ((\<lambda>(i, j, k). cubeCells
             (add center (newVector3 (of_int i * (sideLength / 3)) (of_int j * (sideLength / 3))
                (of_int k * (sideLength / 3))))
             (sideLength / 3) n) a)) s) st subCubeIndices)"
    by (rule forEachM_total) (auto simp: Suc.IH)
  then show ?case
    unfolding step
    by (simp add: map_concat emitCells_concat comp_def)
qed

lemma subdivideOctahedron_cells:
  "subdivideOctahedron center scale (int n) st =
     Some (emitCells octahedronTable
       (map (\<lambda>(c, r). octahedronVertices c r) (octahedronCells center scale n)) st)"
proof (induction n arbitrary: center scale st)
  case 0
  show ?case
    by (simp add: subdivideOctahedron_0 octahedronLeaf_emitCell emitCells_Cons emitCells_Nil)
next
  case (Suc n)
  have step: "subdivideOctahedron center scale (int (Suc n)) st =
      forEachM (\<lambda>newCenterForSub st'. subdivideOctahedron newCenterForSub (scale / 2) (int n) st')
        (subOctahedronCenters center scale) st"
    by (subst subdivideOctahedron_step) (simp_all add: Let_def subOctahedronCenters_def)
  have "forEachM (\<lambda>newCenterForSub st'. subdivideOctahedron newCenterForSub (scale / 2) (int n) st')
        (subOctahedronCenters center scale) st =
      Some (foldl (\<lambda>s a. emitCells octahedronTable (map (\<lambda>(c, r). octahedronVertices c r)
         (octahedronCells a (scale / 2) n)) s) st (subOctahedronCenters center scale))"
    by (rule forEachM_total) (simp add: Suc.IH)
  then show ?case
    unfolding step
    by (simp add: map_concat emitCells_concat comp_def)
qed

lemma generate_cells:
  assumes "0 \<le> level"
  shows "generate kind level sz =
    Some (toOutput (emitCells (leafTable kind) (leafCells kind (nat level) sz) emptyState))"
proof -
  from assms obtain n where level: "level = int n"
    by (metis nonneg_int_cases)
  show ?thesis
    unfolding level
    by (cases kind)
      (simp_all add: generate_def generateSierpinskiTetrahedron_def generateMengerSponge_def
        generateSierpinskiOctahedron_def leafTable_def leafCells_def Let_def
        subdivideTetrahedron_cells subdivideCube_cells subdivideOctahedron_cells)
qed

lemma octahedronLeaves_emitCells:
  "foldl (\<lambda>s (c, r). octahedronLeaf c r s) st cells =
   emitCells octahedronTable (map (\<lambda>(c, r). octahedronVertices c r) cells) st"
  by (induction cells arbitrary: st)
    (auto simp: emitCells_Nil emitCells_Cons octahedronLeaf_emitCell)

lemma subdivideOctahedron_leaves:
  "subdivideOctahedron center scale (int n) st =
     Some (foldl (\<lambda>s (c, r). octahedronLeaf c r s) st (octahedronCells center scale n))"
  by (simp add: subdivideOctahedron_cells octahedronLeaves_emitCells)

lemma octahedron_level1_points:
  "exportVertices (foldl (\<lambda>s (c, r). octahedronLeaf c r s) emptyState
       [(newVector3 1 3 3, 1), (newVector3 1 1 3, 1), (newVector3 2 2 3, 1),
        (newVector3 0 2 3, 1), (newVector3 1 2 4, 1), (newVector3 1 2 2, 1)]) =
     [newVector3 1 4 3, newVector3 1 2 3, newVector3 2 3 3, newVector3 0 3 3,
      newVector3 1 3 4, newVector3 1 3 2,
      newVector3 1 0 3, newVector3 2 1 3, newVector3 0 1 3, newVector3 1 1 4, newVector3 1 1 2,
      newVector3 3 2 3, newVector3 2 2 4, newVector3 2 2 2,
      newVector3 (- 1) 2 3, newVector3 0 2 4, newVector3 0 2 2,
      newVector3 1 2 5, newVector3 1 2 1]"
  by (simp add: octahedronLeaf_def emptyState_def addUniqueVertex_def vertexKey_def
      newVector3_def toFixed5_0 toFixed5_1 toFixed5_m1 toFixed5_2 toFixed5_3 toFixed5_4
      toFixed5_5 Let_def pushFaces_effect)

section \<open>Counting cells, faces and buffer entries\<close>

lemma length_concat_const:
  assumes "\<And>a. a \<in> set as \<Longrightarrow> length (h a) = m"
  shows "length (concat (map h as)) = m * length as"
  using assms by (induction as) simp_all

lemma length_tetrahedronCells: "length (tetrahedronCells p1 p2 p3 p4 n) = 4 ^ n"
  by (induction n arbitrary: p1 p2 p3 p4) (simp_all add: Let_def)

lemma length_subCubeIndices: "length subCubeIndices = 20"
  by (simp add: subCubeIndices_eq)

lemma length_cubeCells: "length (cubeCells center sideLength n) = 20 ^ n"
proof (induction n arbitrary: center sideLength)
  case 0
  show ?case by simp
next
  case (Suc n)
  have "length (cubeCells center sideLength (Suc n)) = 20 ^ n * length subCubeIndices"
    unfolding cubeCells.simps
    by (rule length_concat_const) (auto simp: Suc.IH)
  then show ?case
    by (simp add: length_subCubeIndices)
qed

lemma length_subOctahedronCenters: "length (subOctahedronCenters center scale) = 6"
  by (simp add: subOctahedronCenters_def)

lemma length_octahedronCells: "length (octahedronCells center scale n) = 6 ^ n"
proof (induction n arbitrary: center scale)
  case 0
  show ?case by simp
next
  case (Suc n)
  have "length (octahedronCells center scale (Suc n)) =
      6 ^ n * length (subOctahedronCenters center scale)"
    unfolding octahedronCells.simps
    by (rule length_concat_const) (simp add: Suc.IH)
  then show ?case
    by (simp add: length_subOctahedronCenters)
qed

lemma tetrahedronCells_corners:
  "cell \<in> set (tetrahedronCells p1 p2 p3 p4 n) \<Longrightarrow> length cell = 4"
  by (induction n arbitrary: p1 p2 p3 p4) (auto simp: Let_def)

lemma leafCells_table:
  assumes "cell \<in> set (leafCells kind n sz)"
  shows "wellFormedTable (length cell) (leafTable kind)"
    and "length cell \<le> length (leafTable kind)"
proof -
  have "wellFormedTable (length cell) (leafTable kind) \<and> length cell \<le> length (leafTable kind)"
  proof (cases kind)
    case SierpinskiTetrahedron
    with assms have "length cell = 4"
      by (auto simp: leafCells_def dest: tetrahedronCells_corners)
    with wellFormedTable_tetrahedron show ?thesis
      by (simp add: leafTable_def SierpinskiTetrahedron length_tables)
  next
    case MengerSponge
    with assms have "length cell = 8"
      by (auto simp: leafCells_def length_cubeVertices)
    with wellFormedTable_cube show ?thesis
      by (simp add: leafTable_def MengerSponge length_tables)
  next
    case SierpinskiOctahedron
    with assms have "length cell = 6"
      by (auto simp: leafCells_def length_octahedronVertices)
    with wellFormedTable_octahedron show ?thesis
      by (simp add: leafTable_def SierpinskiOctahedron length_tables)
  qed
  then show "wellFormedTable (length cell) (leafTable kind)"
    and "length cell \<le> length (leafTable kind)"
    by simp_all
qed

lemma length_leafCells:
  "length (leafCells kind n sz) =
     (case kind of SierpinskiTetrahedron \<Rightarrow> 4 ^ n | MengerSponge \<Rightarrow> 20 ^ n
      | SierpinskiOctahedron \<Rightarrow> 6 ^ n)"
  by (cases kind)
    (simp_all add: leafCells_def length_tetrahedronCells length_cubeCells length_octahedronCells)

lemma index_entries_count:
  "3 * (length (leafTable kind) * length (leafCells kind n sz)) = indexEntries kind n"
  by (cases kind) (simp_all add: length_leafCells leafTable_def length_tables indexEntries_def)

lemma emitCells_consistent:
  assumes "consistent st"
    and "\<And>cell. cell \<in> set cells \<Longrightarrow> wellFormedTable (length cell) table"
  shows "consistent (emitCells table cells st) \<and>
    length (exportFaces (emitCells table cells st)) =
      length (exportFaces st) + length table * length cells"
  using assms
proof (induction cells arbitrary: st)
  case Nil
  then show ?case by (simp add: emitCells_Nil)
next
  case (Cons cell cells)
  have t: "wellFormedTable (length cell) table"
    by (rule Cons.prems(2)) simp
  note e = emitCell_consistent(1,2) [OF Cons.prems(1) t]
  from Cons.IH [OF e(1)] Cons.prems(2)
  have "consistent (emitCells table cells (emitCell cell table st)) \<and>
    length (exportFaces (emitCells table cells (emitCell cell table st))) =
      length (exportFaces (emitCell cell table st)) + length table * length cells"
    by simp
  with e(2) show ?case
    by (simp add: emitCells_Cons)
qed

lemma emitCells_points:
  assumes "consistent st"
    and "\<And>cell. cell \<in> set cells \<Longrightarrow> wellFormedTable (length cell) table"
    and "\<And>cell. cell \<in> set cells \<Longrightarrow> length cell \<le> length table"
    and "length (exportVertices st) \<le> length (exportFaces st)"
  shows "length (exportVertices (emitCells table cells st)) \<le>
    length (exportFaces (emitCells table cells st))"
  using assms
proof (induction cells arbitrary: st)
  case Nil
  then show ?case by (simp add: emitCells_Nil)
next
  case (Cons cell cells)
  have t: "wellFormedTable (length cell) table"
    by (rule Cons.prems(2)) simp
  have l: "length cell \<le> length table"
    by (rule Cons.prems(3)) simp
  note e = emitCell_consistent(1,2,3) [OF Cons.prems(1) t]
  from e(3) obtain ws where "exportVertices (emitCell cell table st) = exportVertices st @ ws"
    "length ws \<le> length cell"
    by blast
  with e(2) l Cons.prems(4)
  have "length (exportVertices (emitCell cell table st)) \<le> length (exportFaces (emitCell cell table st))"
    by simp
  from Cons.IH [OF e(1) _ _ this] Cons.prems(2,3) show ?case
    by (simp add: emitCells_Cons)
qed

lemma emitCells_lengths:
  assumes "consistent st"
    and "\<And>cell. cell \<in> set cells \<Longrightarrow> wellFormedTable (length cell) table"
  shows "length (bufferVertices st) \<le> length (bufferVertices (emitCells table cells st)) \<and>
    length (bufferIndices st) \<le> length (bufferIndices (emitCells table cells st)) \<and>
    length (exportVertices st) \<le> length (exportVertices (emitCells table cells st)) \<and>
    length (exportFaces st) \<le> length (exportFaces (emitCells table cells st))"
  using assms
proof (induction cells arbitrary: st)
  case Nil
  then show ?case by (simp add: emitCells_Nil)
next
  case (Cons cell cells)
  have t: "wellFormedTable (length cell) table"
    by (rule Cons.prems(2)) simp
  note e = emitCell_consistent(1,2,3) [OF Cons.prems(1) t]
  from e(3) have points: "length (exportVertices st) \<le> length (exportVertices (emitCell cell table st))"
    by auto
  from e(2) have faces: "length (exportFaces st) \<le> length (exportFaces (emitCell cell table st))"
    by simp
  from Cons.prems(1) e(1) points faces
  have first: "length (bufferVertices st) \<le> length (bufferVertices (emitCell cell table st))"
    "length (bufferIndices st) \<le> length (bufferIndices (emitCell cell table st))"
    by (simp_all add: consistent_def length_flatVertices length_flatFaces)
  from Cons.IH [OF e(1)] Cons.prems(2)
  have "length (bufferVertices (emitCell cell table st)) \<le>
      length (bufferVertices (emitCells table cells (emitCell cell table st))) \<and>
    length (bufferIndices (emitCell cell table st)) \<le>
      length (bufferIndices (emitCells table cells (emitCell cell table st))) \<and>
    length (exportVertices (emitCell cell table st)) \<le>
      length (exportVertices (emitCells table cells (emitCell cell table st))) \<and>
    length (exportFaces (emitCell cell table st)) \<le>
      length (exportFaces (emitCells table cells (emitCell cell table st)))"
    by simp
  with first points faces show ?case
    by (simp add: emitCells_Cons)
qed

section \<open>Cells with pairwise different corner keys\<close>





section \<open>Arrays of bounded capacity\<close>

lemma map_keys_points:
  assumes "consistent st"
  shows "card (dom (vertexMap st)) = length (exportVertices st)"
proof -
  from assms have entry: "vertexMap st k = Some i \<longleftrightarrow>
      i < length (exportVertices st) \<and> vertexKey (exportVertices st ! i) = k" for k i
    unfolding consistent_def by blast
  have "dom (vertexMap st) = set (map vertexKey (exportVertices st))"
  proof (intro equalityI subsetI)
    fix k
    assume "k \<in> dom (vertexMap st)"
    then obtain i where "vertexMap st k = Some i"
      by auto
    with entry have "i < length (exportVertices st)" "vertexKey (exportVertices st ! i) = k"
      by simp_all
    then show "k \<in> set (map vertexKey (exportVertices st))"
      by (metis image_eqI list.set_map nth_mem)
  next
    fix k
    assume "k \<in> set (map vertexKey (exportVertices st))"
    then obtain i where "i < length (exportVertices st)" "k = vertexKey (exportVertices st ! i)"
      by (auto simp: in_set_conv_nth)
    with entry have "vertexMap st k = Some i"
      by simp
    then show "k \<in> dom (vertexMap st)"
      by auto
  qed
  with consistent_distinct_keys [OF assms] show ?thesis
    by (simp only: distinct_card length_map)
qed

lemma generate_sizes:
  assumes "0 \<le> level"
  shows "\<exists>out. generate kind level sz = Some out \<and>
    length (bufferIndices out) = indexEntries kind (nat level) \<and>
    length (bufferVertices out) \<le> length (bufferIndices out) \<and>
    3 * length (exportVertices out) \<le> length (bufferIndices out) \<and>
    length (exportFaces out) \<le> length (bufferIndices out) \<and>
    exportVertices out \<noteq> [] \<and> exportFaces out \<noteq> []"
proof -
  define st where "st = emitCells (leafTable kind) (leafCells kind (nat level) sz) emptyState"
  have gen: "generate kind level sz = Some (toOutput st)"
    unfolding st_def by (rule generate_cells [OF assms])
  have "consistent (emitCells (leafTable kind) (leafCells kind (nat level) sz) emptyState) \<and>
    length (exportFaces (emitCells (leafTable kind) (leafCells kind (nat level) sz) emptyState)) =
      length (exportFaces emptyState) +
      length (leafTable kind) * length (leafCells kind (nat level) sz)"
    by (rule emitCells_consistent [OF consistent_emptyState leafCells_table(1)])
  then have c: "consistent st"
    and faces: "length (exportFaces st) =
      length (leafTable kind) * length (leafCells kind (nat level) sz)"
    unfolding st_def by (simp_all add: emptyState_def)
  have points: "length (exportVertices st) \<le> length (exportFaces st)"
    unfolding st_def
    by (rule emitCells_points [OF consistent_emptyState leafCells_table])
      (simp_all add: emptyState_def)
  from c have bi: "length (bufferIndices st) = 3 * length (exportFaces st)"
    and bv: "length (bufferVertices st) = 3 * length (exportVertices st)"
    by (simp_all add: consistent_def length_flatVertices length_flatFaces)
  from bi faces have entries: "length (bufferIndices st) = indexEntries kind (nat level)"
    by (simp only: index_entries_count)
  from generate_returns [OF assms, of kind sz] gen
  obtain st' where st': "toOutput st = toOutput st'" "consistent st'" "exportFaces st' \<noteq> []"
    by auto
  from st'(1) have same: "exportFaces st = exportFaces st'" "exportVertices st = exportVertices st'"
    by (simp_all add: toOutput_def)
  from st'(3) obtain f where "f \<in> set (exportFaces st')"
    by (cases "exportFaces st'") auto
  with st'(2) have "v1 f < length (exportVertices st')"
    by (simp add: consistent_def)
  then have "exportVertices st' \<noteq> []" by auto
  with st'(3) same have nonempty: "exportVertices st \<noteq> []" "exportFaces st \<noteq> []"
    by simp_all
  from gen entries bi bv points nonempty show ?thesis
    by (simp add: toOutput_fields)
qed

lemma generateWithin_cases:
  assumes "0 \<le> level"
  shows "(\<exists>r. generateWithin arrayCap mapCap kind level sz = Some r \<and>
       (r = Inl RangeError \<or>
        (\<exists>out. r = Inr out \<and> generate kind level sz = Some out \<and>
           length (bufferIndices out) = indexEntries kind (nat level) \<and>
           exportVertices out \<noteq> [] \<and> exportFaces out \<noteq> []))) \<and>
    (indexEntries kind (nat level) \<le> arrayCap \<and> indexEntries kind (nat level) \<le> 3 * mapCap \<longrightarrow>
      (\<exists>out. generateWithin arrayCap mapCap kind level sz = Some (Inr out))) \<and>
    (arrayCap < indexEntries kind (nat level) \<longrightarrow>
       generateWithin arrayCap mapCap kind level sz = Some (Inl RangeError))"
proof -
  from generate_sizes [OF assms, of kind sz]
  obtain out where out: "generate kind level sz = Some out"
    "length (bufferIndices out) = indexEntries kind (nat level)"
    "length (bufferVertices out) \<le> length (bufferIndices out)"
    "3 * length (exportVertices out) \<le> length (bufferIndices out)"
    "length (exportFaces out) \<le> length (bufferIndices out)"
    "exportVertices out \<noteq> []" "exportFaces out \<noteq> []"
    by blast
  from out(2-5) have small: "fits arrayCap mapCap out"
    if "indexEntries kind (nat level) \<le> arrayCap" "indexEntries kind (nat level) \<le> 3 * mapCap"
    using that by (simp add: fits_def)
  from out(2) have large: "\<not> fits arrayCap mapCap out" if "arrayCap < indexEntries kind (nat level)"
    using that by (simp add: fits_def)
  from out small large show ?thesis
    by (auto simp: generateWithin_def)
qed

lemma containers_only_grow:
  assumes "0 \<le> level" and "leafCells kind (nat level) sz = xs @ ys"
    and "generateWithin arrayCap mapCap kind level sz = Some (Inr out)"
  shows "fits arrayCap mapCap (toOutput (emitCells (leafTable kind) xs emptyState))"
proof -
  define st1 where "st1 = emitCells (leafTable kind) xs emptyState"
  have tables: "wellFormedTable (length cell) (leafTable kind)" if "cell \<in> set (xs @ ys)" for cell
    using that leafCells_table(1) [of cell kind "nat level" sz] by (simp only: assms(2))
  have "consistent st1 \<and> length (exportFaces st1) =
      length (exportFaces emptyState) + length (leafTable kind) * length xs"
    unfolding st1_def
    by (rule emitCells_consistent [OF consistent_emptyState]) (simp add: tables)
  then have c1: "consistent st1" by simp
  have grow: "length (bufferVertices st1) \<le> length (bufferVertices (emitCells (leafTable kind) ys st1)) \<and>
    length (bufferIndices st1) \<le> length (bufferIndices (emitCells (leafTable kind) ys st1)) \<and>
    length (exportVertices st1) \<le> length (exportVertices (emitCells (leafTable kind) ys st1)) \<and>
    length (exportFaces st1) \<le> length (exportFaces (emitCells (leafTable kind) ys st1))"
    by (rule emitCells_lengths [OF c1]) (simp add: tables)
  have gen: "generate kind level sz = Some (toOutput (emitCells (leafTable kind) ys st1))"
    unfolding st1_def generate_cells [OF assms(1)] assms(2) emitCells_append by simp
  with assms(3) have "fits arrayCap mapCap (toOutput (emitCells (leafTable kind) ys st1))"
    by (auto simp: generateWithin_def split: if_splits)
  with grow show ?thesis
    unfolding st1_def [symmetric] by (simp add: fits_def toOutput_fields)
qed

section \<open>The claims\<close>

text \<open>
  Claim C1. The weld \<open>addUniqueVertex\<close> on a point \<open>p\<close>: when the key of \<open>p\<close> (its
  three coordinates rendered by \<open>toFixed(5)\<close>) is in the map, the call returns the index
  stored there and leaves the whole state unchanged; otherwise it appends \<open>p\<close> itself,
  unrounded, to \<open>exportVertices\<close>, its three coordinates to \<open>bufferVertices\<close>, records
  the key with the previous length of \<open>exportVertices\<close> and returns that index.
\<close>

theorem addUniqueVertex_weld:
  "(\<forall>i. vertexMap st (vertexKey p) = Some i \<longrightarrow> addUniqueVertex p st = (i, st)) \<and>
   (vertexMap st (vertexKey p) = None \<longrightarrow>
      addUniqueVertex p st =
        (length (exportVertices st),
         st\<lparr>bufferVertices := bufferVertices st @ [vx p, vy p, vz p],
            exportVertices := exportVertices st @ [p],
            vertexMap := (vertexMap st)(vertexKey p \<mapsto> length (exportVertices st))\<rparr>))"
  by (simp add: addUniqueVertex_def Let_def)

text \<open>
  Claim C1 at a point: the first weld of \<open>(0, 1, 0)\<close> into the empty state misses and
  stores it under index 0, the second one hits and changes nothing.
\<close>

theorem addUniqueVertex_weld_witness:
  "vertexMap emptyState (vertexKey (newVector3 0 1 0)) = None \<and>
   addUniqueVertex (newVector3 0 1 0) emptyState =
     (0, \<lparr>bufferVertices = [0, 1, 0], bufferIndices = [],
          exportVertices = [newVector3 0 1 0], exportFaces = [],
          vertexMap = [''0.00000,1.00000,0.00000'' \<mapsto> 0]\<rparr>) \<and>
   [''0.00000,1.00000,0.00000'' \<mapsto> (0::nat)] (vertexKey (newVector3 0 1 0)) = Some 0 \<and>
   addUniqueVertex (newVector3 0 1 0)
     \<lparr>bufferVertices = [0, 1, 0], bufferIndices = [],
      exportVertices = [newVector3 0 1 0], exportFaces = [],
      vertexMap = [''0.00000,1.00000,0.00000'' \<mapsto> 0]\<rparr> =
     (0, \<lparr>bufferVertices = [0, 1, 0], bufferIndices = [],
          exportVertices = [newVector3 0 1 0], exportFaces = [],
          vertexMap = [''0.00000,1.00000,0.00000'' \<mapsto> 0]\<rparr>)"
  using addUniqueVertex_weld [of emptyState "newVector3 0 1 0"]
    addUniqueVertex_weld [of "\<lparr>bufferVertices = [0, 1, 0], bufferIndices = [],
      exportVertices = [newVector3 0 1 0], exportFaces = [],
      vertexMap = [''0.00000,1.00000,0.00000'' \<mapsto> 0]\<rparr>" "newVector3 0 1 0"]
  by (simp add: emptyState_def vertexKey_def newVector3_def toFixed5_0 toFixed5_1)

text \<open>
  Claim C2, as stated, fails for the octahedron: at level 0 and size \<open>2^-20\<close> the
  coordinates \<open>0\<close> and \<open>2^-20\<close> are both rendered \<open>0.00000\<close>, the corners \<open>+y\<close>, \<open>+x\<close>
  and \<open>+z\<close> are welded into one point, and four points are returned, not six.
\<close>

theorem tiny_octahedron_points:
  "map_option exportVertices (generate SierpinskiOctahedron 0 (1 / 1048576)) =
     Some [newVector3 0 (1 / 1048576) 0, newVector3 0 (- (1 / 1048576)) 0,
           newVector3 (- (1 / 1048576)) 0 0, newVector3 0 0 (- (1 / 1048576))] \<and>
   map_option (length \<circ> exportVertices) (generate SierpinskiOctahedron 0 (1 / 1048576)) \<noteq> Some 6"
  by (simp add: generate_def tiny_octahedron)

text \<open>
  Claim C2, as amended. At level 0 and for every positive size, the tetrahedron has
  exactly 4 points and 4 faces, the sponge exactly 12 faces and the octahedron exactly
  8 faces. For every size from \<open>0.000005\<close> on, the sponge has exactly 8 points and the
  octahedron exactly 6 points. From that size on the half side of the cube is exact and
  not zero in double arithmetic, and the size is not rendered as \<open>0.00000\<close>.
\<close>

theorem level0_counts:
  "(0 < sz \<longrightarrow>
     (\<exists>out. generate SierpinskiTetrahedron 0 sz = Some out \<and>
        length (exportVertices out) = 4 \<and> length (exportFaces out) = 4) \<and>
     (\<exists>out. generate MengerSponge 0 sz = Some out \<and> length (exportFaces out) = 12) \<and>
     (\<exists>out. generate SierpinskiOctahedron 0 sz = Some out \<and> length (exportFaces out) = 8)) \<and>
   (1 / 200000 \<le> sz \<longrightarrow>
     (\<exists>out. generate MengerSponge 0 sz = Some out \<and>
        length (exportVertices out) = 8 \<and> length (exportFaces out) = 12) \<and>
     (\<exists>out. generate SierpinskiOctahedron 0 sz = Some out \<and>
        length (exportVertices out) = 6 \<and> length (exportFaces out) = 8))"
proof -
  have faces: "length (exportFaces (emitCell vs table emptyState)) = length table"
    if "wellFormedTable (length vs) table" for vs table
    using emitCell_consistent(2) [OF consistent_emptyState that]
    by (simp add: emptyState_def)
  have tetra: "length (exportFaces (emitCell [p1, p2, p3, p4] tetrahedronTable emptyState)) = 4"
    for p1 p2 p3 p4
    using faces [OF tetrahedron_cell_table] by (simp only: length_tables)
  have cube: "length (exportFaces (emitCell (cubeVertices c s) cubeTable emptyState)) = 12"
    for c s
    using faces [OF cube_cell_table] by (simp only: length_tables)
  have octa: "length (exportFaces (emitCell (octahedronVertices c s) octahedronTable emptyState)) = 8"
    for c s
    using faces [OF octahedron_cell_table] by (simp only: length_tables)
  have tetra_points: "length (exportVertices (emitCell
      [newVector3 sz sz sz, newVector3 sz (- sz) (- sz), newVector3 (- sz) sz (- sz),
       newVector3 (- sz) (- sz) sz] tetrahedronTable emptyState)) = 4" if "0 < sz"
    by (simp add: emitCell_fresh [OF tetrahedron_keys_distinct [OF that]])
  have cube_points: "length (exportVertices (emitCell (cubeVertices (newVector3 0 0 0) sz)
      cubeTable emptyState)) = 8" if "1 / 200000 \<le> sz"
  proof -
    from that have "0 < sz" by simp
    then show ?thesis
      by (simp add: emitCell_fresh [OF cube_keys_distinct_origin] length_cubeVertices)
  qed
  have octa_points: "length (exportVertices (emitCell (octahedronVertices (newVector3 0 0 0) sz)
      octahedronTable emptyState)) = 6" if "1 / 200000 \<le> sz"
    by (simp add: emitCell_fresh [OF octahedron_keys_distinct_origin [OF that]]
        length_octahedronVertices)
  show ?thesis
    using tetra_points cube_points octa_points
    by (simp add: generate_def generateSierpinskiTetrahedron_def generateMengerSponge_def
        generateSierpinskiOctahedron_def subdivideTetrahedron_0 subdivideCube_0
        subdivideOctahedron_0 toOutput_fields tetra cube octa Let_def
        tetrahedronLeaf_emitCell cubeLeaf_emitCell octahedronLeaf_emitCell)
qed

text \<open>
  Claim C2, as amended, at size 1.
\<close>

theorem level0_counts_witness:
  "(0::rat) < 1 \<and>
     (\<exists>out. generate SierpinskiTetrahedron 0 1 = Some out \<and>
        length (exportVertices out) = 4 \<and> length (exportFaces out) = 4) \<and>
     (\<exists>out. generate MengerSponge 0 1 = Some out \<and> length (exportFaces out) = 12) \<and>
     (\<exists>out. generate SierpinskiOctahedron 0 1 = Some out \<and> length (exportFaces out) = 8) \<and>
   (1::rat) / 200000 \<le> 1 \<and>
     (\<exists>out. generate MengerSponge 0 1 = Some out \<and>
        length (exportVertices out) = 8 \<and> length (exportFaces out) = 12) \<and>
     (\<exists>out. generate SierpinskiOctahedron 0 1 = Some out \<and>
        length (exportVertices out) = 6 \<and> length (exportFaces out) = 8)"
  using level0_counts [of 1] by simp

text \<open>
  Claim C3. For every kind, every level from 0 on and every positive size, generation
  returns an output whose vertex buffer is three times as long as the point list, whose
  index buffer is three times as long as the face list, and in which every index of
  every face is below the number of points.
\<close>

theorem generate_output_sizes:
  assumes "0 \<le> level" and "0 < sz"
  shows "\<exists>out. generate kind level sz = Some out \<and>
    length (bufferVertices out) = 3 * length (exportVertices out) \<and>
    length (bufferIndices out) = 3 * length (exportFaces out) \<and>
    (\<forall>f \<in> set (exportFaces out).
       v1 f < length (exportVertices out) \<and> v2 f < length (exportVertices out) \<and>
       v3 f < length (exportVertices out))"
proof -
  from generate_returns [OF assms(1)]
  obtain st where st: "generate kind level sz = Some (toOutput st)" "consistent st"
    by blast
  from st(2) have "length (bufferVertices st) = 3 * length (exportVertices st)"
    "length (bufferIndices st) = 3 * length (exportFaces st)"
    "\<forall>f \<in> set (exportFaces st).
       v1 f < length (exportVertices st) \<and> v2 f < length (exportVertices st) \<and>
       v3 f < length (exportVertices st)"
    by (simp_all add: consistent_def length_flatVertices length_flatFaces)
  with st(1) show ?thesis
    by (simp add: toOutput_fields)
qed

text \<open>
  Claim C3 at the default request: the tetrahedron at level 2 and size 5.1.
\<close>

theorem generate_output_sizes_witness:
  "(0::int) \<le> 2 \<and> (0::rat) < 51 / 10 \<and>
   (\<exists>out. generate SierpinskiTetrahedron 2 (51 / 10) = Some out \<and>
    length (bufferVertices out) = 3 * length (exportVertices out) \<and>
    length (bufferIndices out) = 3 * length (exportFaces out) \<and>
    (\<forall>f \<in> set (exportFaces out).
       v1 f < length (exportVertices out) \<and> v2 f < length (exportVertices out) \<and>
       v3 f < length (exportVertices out)))"
  using generate_output_sizes [of 2 "51 / 10" SierpinskiTetrahedron] by simp

text \<open>
  Claim C4, as stated, fails: the tetrahedron at level 0 and size \<open>2^-20\<close> keeps its four
  corners, whose keys differ by their signs, although the first two are less than
  \<open>0.00001\<close> apart in every coordinate.
\<close>

theorem tiny_tetrahedron_close_points:
  "map_option exportVertices (generate SierpinskiTetrahedron 0 (1 / 1048576)) =
     Some [newVector3 (1 / 1048576) (1 / 1048576) (1 / 1048576),
           newVector3 (1 / 1048576) (- (1 / 1048576)) (- (1 / 1048576)),
           newVector3 (- (1 / 1048576)) (1 / 1048576) (- (1 / 1048576)),
           newVector3 (- (1 / 1048576)) (- (1 / 1048576)) (1 / 1048576)] \<and>
   withinWeldTolerance (newVector3 (1 / 1048576) (1 / 1048576) (1 / 1048576))
     (newVector3 (1 / 1048576) (- (1 / 1048576)) (- (1 / 1048576))) \<and>
   newVector3 (1 / 1048576) (1 / 1048576) (1 / 1048576) \<noteq>
     newVector3 (1 / 1048576) (- (1 / 1048576)) (- (1 / 1048576))"
  by (simp add: generate_def tiny_tetrahedron withinWeldTolerance_def newVector3_def)

text \<open>
  Claim C4, as amended. For every kind, every level from 0 on and every positive size,
  no two entries of the output point list have the same key: the weld separates points
  by their \<open>toFixed(5)\<close> rendering, not by their distance.
\<close>

theorem generate_keys_distinct:
  assumes "0 \<le> level" and "0 < sz"
  shows "\<exists>out. generate kind level sz = Some out \<and>
    distinct (map vertexKey (exportVertices out))"
proof -
  from generate_returns [OF assms(1)]
  obtain st where st: "generate kind level sz = Some (toOutput st)" "consistent st"
    by blast
  from consistent_distinct_keys [OF st(2)] st(1) show ?thesis
    by (simp add: toOutput_fields)
qed

text \<open>
  Claim C4, as amended, at the input of its counterexample.
\<close>

theorem generate_keys_distinct_witness:
  "(0::int) \<le> 0 \<and> (0::rat) < 1 / 1048576 \<and>
   (\<exists>out. generate SierpinskiTetrahedron 0 (1 / 1048576) = Some out \<and>
    distinct (map vertexKey (exportVertices out)))"
  using generate_keys_distinct [of 0 "1 / 1048576" SierpinskiTetrahedron] by simp




text \<open>
  Claim C6. The sponge at level 1 and size 3: the loops reach the recursive call at the
  20 grid indices with at most one zero component, each time at level 0 with side 1
  and the index as centre; the output has exactly 240 faces and exactly 64 points,
  the points of the grid of step 1 from \<open>-3/2\<close> to \<open>3/2\<close>, which is less than 160.
\<close>

theorem sponge_level1_size3:
  "subCubeIndices =
    [(- 1, - 1, - 1), (- 1, - 1, 0), (- 1, - 1, 1), (- 1, 0, - 1), (- 1, 0, 1),
     (- 1, 1, - 1), (- 1, 1, 0), (- 1, 1, 1), (0, - 1, - 1), (0, - 1, 1),
     (0, 1, - 1), (0, 1, 1), (1, - 1, - 1), (1, - 1, 0), (1, - 1, 1),
     (1, 0, - 1), (1, 0, 1), (1, 1, - 1), (1, 1, 0), (1, 1, 1)] \<and>
   length subCubeIndices = 20 \<and>
   set subCubeIndices =
     {(i, j, k). i \<in> {- 1, 0, 1} \<and> j \<in> {- 1, 0, 1} \<and> k \<in> {- 1, 0, 1} \<and>
        \<not> (i = 0 \<and> j = 0) \<and> \<not> (i = 0 \<and> k = 0) \<and> \<not> (j = 0 \<and> k = 0)} \<and>
   subdivideCube (newVector3 0 0 0) 3 1 emptyState =
     forEachM (\<lambda>(i, j, k). subdivideCube (newVector3 (of_int i) (of_int j) (of_int k)) 1 0)
       subCubeIndices emptyState \<and>
   (\<exists>out. generateMengerSponge 1 3 = Some out \<and>
      length (exportFaces out) = 240 \<and>
      length (exportVertices out) = 64 \<and> length (exportVertices out) < 160)"
proof -
  have indices: "set subCubeIndices =
     {(i, j, k). i \<in> {- 1, 0, 1} \<and> j \<in> {- 1, 0, 1} \<and> k \<in> {- 1, 0, 1} \<and>
        \<not> (i = 0 \<and> j = 0) \<and> \<not> (i = 0 \<and> k = 0) \<and> \<not> (j = 0 \<and> k = 0)}"
  proof (rule equalityI)
    show "set subCubeIndices \<subseteq>
     {(i, j, k). i \<in> {- 1, 0, 1} \<and> j \<in> {- 1, 0, 1} \<and> k \<in> {- 1, 0, 1} \<and>
        \<not> (i = 0 \<and> j = 0) \<and> \<not> (i = 0 \<and> k = 0) \<and> \<not> (j = 0 \<and> k = 0)}"
      by (rule subCubeIndices_sub)
    show "{(i, j, k). i \<in> {- 1, 0, 1} \<and> j \<in> {- 1, 0, 1} \<and> k \<in> {- 1, 0, 1} \<and>
        \<not> (i = 0 \<and> j = 0) \<and> \<not> (i = 0 \<and> k = 0) \<and> \<not> (j = 0 \<and> k = 0)}
      \<subseteq> set subCubeIndices"
      using subCubeIndices_sup by blast
  qed
  from sponge_level1_points obtain st
    where st: "subdivideCube (newVector3 0 0 0) 3 1 emptyState = Some st"
      "length (exportFaces st) = 240" "length (exportVertices st) = 64"
    by blast
  then have "\<exists>out. generateMengerSponge 1 3 = Some out \<and>
      length (exportFaces out) = 240 \<and>
      length (exportVertices out) = 64 \<and> length (exportVertices out) < 160"
    by (simp add: generateMengerSponge_def toOutput_fields)
  moreover have "length subCubeIndices = 20"
    by (simp add: subCubeIndices_eq)
  ultimately show ?thesis
    using indices sponge_level1_cells [of emptyState] subCubeIndices_eq by blast
qed

text \<open>
  Claim C7. The octahedron at level 0 and size 1: the six points, in order of insertion,
  and the eight faces of the winding table, the first four from the apex \<open>+y\<close> (index 0),
  the last four from the apex \<open>-y\<close> (index 1).
\<close>

theorem octahedron_level0_size1:
  "generateSierpinskiOctahedron 0 1 = Some
    \<lparr>bufferVertices = [0, 1, 0, 0, - 1, 0, 1, 0, 0, - 1, 0, 0, 0, 0, 1, 0, 0, - 1],
     bufferIndices = [0, 4, 2, 0, 2, 5, 0, 5, 3, 0, 3, 4, 1, 2, 4, 1, 5, 2, 1, 3, 5, 1, 4, 3],
     exportVertices =
       [newVector3 0 1 0, newVector3 0 (- 1) 0, newVector3 1 0 0,
        newVector3 (- 1) 0 0, newVector3 0 0 1, newVector3 0 0 (- 1)],
     exportFaces =
       [\<lparr>v1 = 0, v2 = 4, v3 = 2\<rparr>, \<lparr>v1 = 0, v2 = 2, v3 = 5\<rparr>,
        \<lparr>v1 = 0, v2 = 5, v3 = 3\<rparr>, \<lparr>v1 = 0, v2 = 3, v3 = 4\<rparr>,
        \<lparr>v1 = 1, v2 = 2, v3 = 4\<rparr>, \<lparr>v1 = 1, v2 = 5, v3 = 2\<rparr>,
        \<lparr>v1 = 1, v2 = 3, v3 = 5\<rparr>, \<lparr>v1 = 1, v2 = 4, v3 = 3\<rparr>]\<rparr>"
  by (simp add: generateSierpinskiOctahedron_def subdivideOctahedron_0 octahedronLeaf_def
      emptyState_def toOutput_def addUniqueVertex_def vertexKey_def newVector3_def
      toFixed5_0 toFixed5_1 toFixed5_m1 Let_def)

text \<open>
  Claim C8. For every level above 0, a call of the octahedron subdivision is the
  sequence of six calls at the level below with half the scale, centred at the centre
  moved by half the scale up and down the \<open>y\<close>, \<open>x\<close> and \<open>z\<close> axes, in this order.
  Every call at the level below returns, with the level-0 octahedra of its own
  subdivision emitted. So the call returns the state in which the level-0 octahedra of
  the six sub-octahedra have been emitted one after the other: the six centres are
  used as they are, the centre of the parent is not added to them again.
\<close>

theorem subdivideOctahedron_subdivision:
  assumes "0 < level"
  shows "subdivideOctahedron center scale level st =
    do {
      st1 \<leftarrow> subdivideOctahedron
        (newVector3 (vx center) (vy center + scale / 2) (vz center)) (scale / 2) (level - 1) st;
      st2 \<leftarrow> subdivideOctahedron
        (newVector3 (vx center) (vy center - scale / 2) (vz center)) (scale / 2) (level - 1) st1;
      st3 \<leftarrow> subdivideOctahedron
        (newVector3 (vx center + scale / 2) (vy center) (vz center)) (scale / 2) (level - 1) st2;
      st4 \<leftarrow> subdivideOctahedron
        (newVector3 (vx center - scale / 2) (vy center) (vz center)) (scale / 2) (level - 1) st3;
      st5 \<leftarrow> subdivideOctahedron
        (newVector3 (vx center) (vy center) (vz center + scale / 2)) (scale / 2) (level - 1) st4;
      subdivideOctahedron
        (newVector3 (vx center) (vy center) (vz center - scale / 2)) (scale / 2) (level - 1) st5
    } \<and>
    (\<forall>c r s. subdivideOctahedron c r (level - 1) s =
       Some (foldl (\<lambda>s (c, r). octahedronLeaf c r s) s (octahedronCells c r (nat (level - 1))))) \<and>
    subdivideOctahedron center scale level st =
      Some (foldl (\<lambda>s (c, r). octahedronLeaf c r s) st
        (concat (map (\<lambda>c. octahedronCells c (scale / 2) (nat (level - 1)))
           [newVector3 (vx center) (vy center + scale / 2) (vz center),
            newVector3 (vx center) (vy center - scale / 2) (vz center),
            newVector3 (vx center + scale / 2) (vy center) (vz center),
            newVector3 (vx center - scale / 2) (vy center) (vz center),
            newVector3 (vx center) (vy center) (vz center + scale / 2),
            newVector3 (vx center) (vy center) (vz center - scale / 2)])))"
proof (intro conjI allI)
  from assms have "level \<noteq> 0" by simp
  then show "subdivideOctahedron center scale level st =
    do {
      st1 \<leftarrow> subdivideOctahedron
        (newVector3 (vx center) (vy center + scale / 2) (vz center)) (scale / 2) (level - 1) st;
      st2 \<leftarrow> subdivideOctahedron
        (newVector3 (vx center) (vy center - scale / 2) (vz center)) (scale / 2) (level - 1) st1;
      st3 \<leftarrow> subdivideOctahedron
        (newVector3 (vx center + scale / 2) (vy center) (vz center)) (scale / 2) (level - 1) st2;
      st4 \<leftarrow> subdivideOctahedron
        (newVector3 (vx center - scale / 2) (vy center) (vz center)) (scale / 2) (level - 1) st3;
      st5 \<leftarrow> subdivideOctahedron
        (newVector3 (vx center) (vy center) (vz center + scale / 2)) (scale / 2) (level - 1) st4;
      subdivideOctahedron
        (newVector3 (vx center) (vy center) (vz center - scale / 2)) (scale / 2) (level - 1) st5
    }"
    by (subst subdivideOctahedron_step)
      (simp_all add: Let_def forEachM_Nil_fun forEachM_Cons_fun)
next
  from assms obtain n where n: "level = int (Suc n)"
    by (metis nonneg_int_cases not_less_eq_eq zero_less_imp_eq_int Suc_pred' less_imp_le of_nat_0_less_iff)
  then have below: "level - 1 = int n" and "nat (level - 1) = n"
    by simp_all
  fix c r s
  show "subdivideOctahedron c r (level - 1) s =
       Some (foldl (\<lambda>s (c, r). octahedronLeaf c r s) s (octahedronCells c r (nat (level - 1))))"
    unfolding below by (simp add: subdivideOctahedron_leaves)
next
  from assms obtain n where n: "level = int (Suc n)"
    by (metis nonneg_int_cases not_less_eq_eq zero_less_imp_eq_int Suc_pred' less_imp_le of_nat_0_less_iff)
  then have below: "nat (level - 1) = n"
    by simp
  show "subdivideOctahedron center scale level st =
      Some (foldl (\<lambda>s (c, r). octahedronLeaf c r s) st
        (concat (map (\<lambda>c. octahedronCells c (scale / 2) (nat (level - 1)))
           [newVector3 (vx center) (vy center + scale / 2) (vz center),
            newVector3 (vx center) (vy center - scale / 2) (vz center),
            newVector3 (vx center + scale / 2) (vy center) (vz center),
            newVector3 (vx center - scale / 2) (vy center) (vz center),
            newVector3 (vx center) (vy center) (vz center + scale / 2),
            newVector3 (vx center) (vy center) (vz center - scale / 2)])))"
    unfolding below unfolding n subdivideOctahedron_leaves
    by (simp add: subOctahedronCenters_def)
qed

text \<open>
  Claim C8 at level 1, scale 2 and the centre \<open>(1, 2, 3)\<close>: the six sub-octahedra have
  scale 1 and the centres \<open>(1, 3, 3)\<close>, \<open>(1, 1, 3)\<close>, \<open>(2, 2, 3)\<close>, \<open>(0, 2, 3)\<close>,
  \<open>(1, 2, 4)\<close> and \<open>(1, 2, 2)\<close>, and the call returns their 19 points, among them the
  centre of the parent, which all six share.
\<close>

theorem subdivideOctahedron_subdivision_witness:
  "(0::int) < 1 \<and>
   subdivideOctahedron (newVector3 1 2 3) 2 1 emptyState =
    do {
      st1 \<leftarrow> subdivideOctahedron (newVector3 1 3 3) 1 0 emptyState;
      st2 \<leftarrow> subdivideOctahedron (newVector3 1 1 3) 1 0 st1;
      st3 \<leftarrow> subdivideOctahedron (newVector3 2 2 3) 1 0 st2;
      st4 \<leftarrow> subdivideOctahedron (newVector3 0 2 3) 1 0 st3;
      st5 \<leftarrow> subdivideOctahedron (newVector3 1 2 4) 1 0 st4;
      subdivideOctahedron (newVector3 1 2 2) 1 0 st5
    } \<and>
   subdivideOctahedron (newVector3 1 2 3) 2 1 emptyState =
     Some (foldl (\<lambda>s (c, r). octahedronLeaf c r s) emptyState
       [(newVector3 1 3 3, 1), (newVector3 1 1 3, 1), (newVector3 2 2 3, 1),
        (newVector3 0 2 3, 1), (newVector3 1 2 4, 1), (newVector3 1 2 2, 1)]) \<and>
   map_option exportVertices (subdivideOctahedron (newVector3 1 2 3) 2 1 emptyState) =
     Some [newVector3 1 4 3, newVector3 1 2 3, newVector3 2 3 3, newVector3 0 3 3,
      newVector3 1 3 4, newVector3 1 3 2,
      newVector3 1 0 3, newVector3 2 1 3, newVector3 0 1 3, newVector3 1 1 4, newVector3 1 1 2,
      newVector3 3 2 3, newVector3 2 2 4, newVector3 2 2 2,
      newVector3 (- 1) 2 3, newVector3 0 2 4, newVector3 0 2 2,
      newVector3 1 2 5, newVector3 1 2 1]"
proof -
  have centres: "vx (newVector3 a b c) = a" "vy (newVector3 a b c) = b" "vz (newVector3 a b c) = c"
    for a b c
    by (simp_all add: newVector3_def)
  from subdivideOctahedron_subdivision [of 1 "newVector3 1 2 3" 2 emptyState]
  have chain: "subdivideOctahedron (newVector3 1 2 3) 2 1 emptyState =
    do {
      st1 \<leftarrow> subdivideOctahedron (newVector3 1 3 3) 1 0 emptyState;
      st2 \<leftarrow> subdivideOctahedron (newVector3 1 1 3) 1 0 st1;
      st3 \<leftarrow> subdivideOctahedron (newVector3 2 2 3) 1 0 st2;
      st4 \<leftarrow> subdivideOctahedron (newVector3 0 2 3) 1 0 st3;
      st5 \<leftarrow> subdivideOctahedron (newVector3 1 2 4) 1 0 st4;
      subdivideOctahedron (newVector3 1 2 2) 1 0 st5
    }"
    and leaves: "subdivideOctahedron (newVector3 1 2 3) 2 1 emptyState =
     Some (foldl (\<lambda>s (c, r). octahedronLeaf c r s) emptyState
       [(newVector3 1 3 3, 1), (newVector3 1 1 3, 1), (newVector3 2 2 3, 1),
        (newVector3 0 2 3, 1), (newVector3 1 2 4, 1), (newVector3 1 2 2, 1)])"
    by (simp_all add: centres)
  from leaves octahedron_level1_points chain show ?thesis
    by (simp only: option.map) simp
qed

text \<open>
  Claim C9, as stated, fails: the sponge at level 10 and size 1 has \<open>20^10\<close> level-0
  cubes and needs an index buffer of \<open>36 * 20^10 = 368640000000000\<close> entries, more than
  the \<open>2^32 - 1\<close> elements that an array of the language can hold. Whatever the
  capacity of the map, the call raises \<open>RangeError\<close> and returns nothing.
\<close>

theorem sponge_level10_overflow:
  "(\<forall>mapCap. generateWithin (2 ^ 32 - 1) mapCap MengerSponge 10 1 = Some (Inl RangeError)) \<and>
   (\<exists>out. generate MengerSponge 10 1 = Some out \<and>
      length (bufferIndices out) = 368640000000000 \<and>
      2 ^ 32 - 1 < length (bufferIndices out))"
proof -
  have entries: "indexEntries MengerSponge (nat 10) = 368640000000000"
    by (simp add: indexEntries_def)
  from generate_sizes [of 10 MengerSponge 1] entries
  have "\<exists>out. generate MengerSponge 10 1 = Some out \<and>
      length (bufferIndices out) = 368640000000000 \<and>
      2 ^ 32 - 1 < length (bufferIndices out)"
    by auto
  moreover have "generateWithin (2 ^ 32 - 1) mapCap MengerSponge 10 1 = Some (Inl RangeError)"
    for mapCap
    using generateWithin_cases [of 10 "2 ^ 32 - 1" mapCap MengerSponge 1] entries
    by simp
  ultimately show ?thesis
    by simp
qed

text \<open>
  Claim C9, as amended. For every kind, every integer level from 0 on and every
  positive size, the recursion comes to an end: on arrays of capacity \<open>arrayCap\<close> and a
  map of capacity \<open>mapCap\<close>, generation either raises \<open>RangeError\<close> or returns
  non-empty points and faces, with an index buffer, the longest of the four arrays, of
  \<open>12 * 4^level\<close>, \<open>36 * 20^level\<close> or \<open>24 * 6^level\<close> entries. It returns when that
  number is at most \<open>arrayCap\<close> and at most \<open>3 * mapCap\<close>, and raises when it is
  more than \<open>arrayCap\<close>.
\<close>

theorem generateWithin_terminates:
  assumes "0 \<le> level" and "0 < sz"
  shows "(\<exists>r. generateWithin arrayCap mapCap kind level sz = Some r \<and>
       (r = Inl RangeError \<or>
        (\<exists>out. r = Inr out \<and> generate kind level sz = Some out \<and>
           length (bufferIndices out) = indexEntries kind (nat level) \<and>
           exportVertices out \<noteq> [] \<and> exportFaces out \<noteq> []))) \<and>
    (indexEntries kind (nat level) \<le> arrayCap \<and> indexEntries kind (nat level) \<le> 3 * mapCap \<longrightarrow>
      (\<exists>out. generateWithin arrayCap mapCap kind level sz = Some (Inr out))) \<and>
    (arrayCap < indexEntries kind (nat level) \<longrightarrow>
       generateWithin arrayCap mapCap kind level sz = Some (Inl RangeError))"
  using assms(1) by (rule generateWithin_cases)

text \<open>
  Claim C9, as amended, with arrays of \<open>2^32 - 1\<close> elements and a map of \<open>2^24\<close> keys:
  the tetrahedron at level 2 and size 5.1 returns non-empty points and faces, with 192
  index entries; the octahedron at level 11 and size 1 would need 8707129344 and raises.
\<close>

theorem generateWithin_terminates_witness:
  "(0::int) \<le> 2 \<and> (0::rat) < 51 / 10 \<and>
   indexEntries SierpinskiTetrahedron (nat 2) \<le> 2 ^ 32 - 1 \<and>
   indexEntries SierpinskiTetrahedron (nat 2) \<le> 3 * 2 ^ 24 \<and>
   (\<exists>out. generateWithin (2 ^ 32 - 1) (2 ^ 24) SierpinskiTetrahedron 2 (51 / 10) = Some (Inr out) \<and>
      generate SierpinskiTetrahedron 2 (51 / 10) = Some out \<and>
      length (bufferIndices out) = 192 \<and>
      exportVertices out \<noteq> [] \<and> exportFaces out \<noteq> []) \<and>
   (0::int) \<le> 11 \<and> (0::rat) < 1 \<and>
   2 ^ 32 - 1 < indexEntries SierpinskiOctahedron (nat 11) \<and>
   generateWithin (2 ^ 32 - 1) (2 ^ 24) SierpinskiOctahedron 11 1 = Some (Inl RangeError)"
proof -
  have small: "indexEntries SierpinskiTetrahedron (nat 2) = 192"
    and large: "indexEntries SierpinskiOctahedron (nat 11) = 8707129344"
    by (simp_all add: indexEntries_def)
  from generateWithin_terminates [of 2 "51 / 10" "2 ^ 32 - 1" "2 ^ 24" SierpinskiTetrahedron]
    generateWithin_terminates [of 11 1 "2 ^ 32 - 1" "2 ^ 24" SierpinskiOctahedron]
  show ?thesis
    unfolding small large by auto
qed

text \<open>
  Claim C10. For every kind, every level from 0 on and every positive size, the flat
  buffers mirror the structured output: entries \<open>3i\<close>, \<open>3i+1\<close>, \<open>3i+2\<close> of the vertex
  buffer are the coordinates of point \<open>i\<close>, and entries \<open>3j\<close>, \<open>3j+1\<close>, \<open>3j+2\<close> of
  the index buffer are the three indices of face \<open>j\<close>.
\<close>

theorem generate_buffers_mirror:
  assumes "0 \<le> level" and "0 < sz"
  shows "\<exists>out. generate kind level sz = Some out \<and>
    (\<forall>i < length (exportVertices out).
       bufferVertices out ! (3 * i) = vx (exportVertices out ! i) \<and>
       bufferVertices out ! (3 * i + 1) = vy (exportVertices out ! i) \<and>
       bufferVertices out ! (3 * i + 2) = vz (exportVertices out ! i)) \<and>
    (\<forall>j < length (exportFaces out).
       bufferIndices out ! (3 * j) = v1 (exportFaces out ! j) \<and>
       bufferIndices out ! (3 * j + 1) = v2 (exportFaces out ! j) \<and>
       bufferIndices out ! (3 * j + 2) = v3 (exportFaces out ! j))"
proof -
  from generate_returns [OF assms(1)]
  obtain st where st: "generate kind level sz = Some (toOutput st)" "consistent st"
    by blast
  from st(2) have "bufferVertices st = flatVertices (exportVertices st)"
    "bufferIndices st = flatFaces (exportFaces st)"
    by (simp_all add: consistent_def)
  with st(1) show ?thesis
    by (simp add: toOutput_fields nth_flatVertices nth_flatFaces)
qed

text \<open>
  Claim C10 at the octahedron of level 3 and size 2.
\<close>

theorem generate_buffers_mirror_witness:
  "(0::int) \<le> 3 \<and> (0::rat) < 2 \<and>
   (\<exists>out. generate SierpinskiOctahedron 3 2 = Some out \<and>
    (\<forall>i < length (exportVertices out).
       bufferVertices out ! (3 * i) = vx (exportVertices out ! i) \<and>
       bufferVertices out ! (3 * i + 1) = vy (exportVertices out ! i) \<and>
       bufferVertices out ! (3 * i + 2) = vz (exportVertices out ! i)) \<and>
    (\<forall>j < length (exportFaces out).
       bufferIndices out ! (3 * j) = v1 (exportFaces out ! j) \<and>
       bufferIndices out ! (3 * j + 1) = v2 (exportFaces out ! j) \<and>
       bufferIndices out ! (3 * j + 2) = v3 (exportFaces out ! j)))"
  using generate_buffers_mirror [of 3 2 SierpinskiOctahedron] by simp

end
